theory Spec2Isabelle
  imports Main "HOL-Library.Sublist" "HOL-Library.Char_ord" "HOL-Library.List_Lexorder"
begin

section \<open>Incremental maintenance: the data model\<close>

text \<open>
  The module under study is the incremental maintenance engine
  (\<^verbatim>\<open>runIncrementalMaintenance\<close>, \<^verbatim>\<open>cleanupIncremental\<close>,
  \<^verbatim>\<open>backupSubscribersIncremental\<close>, \<^verbatim>\<open>backupContactsIncremental\<close>,
  \<^verbatim>\<open>saveToGitHub\<close>) together with \<^verbatim>\<open>createOrUpdateFile\<close> of the GitHub
  utilities. Everything the JavaScript does beyond computing a value is explicit: the key-value
  namespace, the system clock, the console and the GitHub repository are fields of a
  \<open>world\<close> record that every operation takes and returns.
\<close>

subsection \<open>JavaScript values\<close>

text \<open>
  The result of \<^verbatim>\<open>JSON.parse\<close>. Numbers are restricted to integers (counters and
  millisecond timestamps, of a size that JavaScript holds exactly and prints in full); an
  object is the list of its members, with distinct names. A string is a list of 8-bit
  characters, its length the number of them.
\<close>

datatype json =
    JNull
  | JBool bool
  | JNum int
  | JStr string
  | JArr "json list"
  | JObj "(string \<times> json) list"

datatype js_error = SyntaxError | TypeError | Unmodelled

text \<open>Truthiness of a parsed value, and of a possibly \<^verbatim>\<open>undefined\<close> one.\<close>

fun truthy :: "json \<Rightarrow> bool" where
  "truthy JNull = False"
| "truthy (JBool b) = b"
| "truthy (JNum n) = (n \<noteq> 0)"
| "truthy (JStr s) = (s \<noteq> [])"
| "truthy (JArr xs) = True"
| "truthy (JObj fs) = True"

fun truthy_opt :: "json option \<Rightarrow> bool" where
  "truthy_opt None = False"
| "truthy_opt (Some v) = truthy v"

text \<open>
  Property access \<^verbatim>\<open>data.name\<close> for the member names this module reads
  (none of them is inherited from a prototype): \<^verbatim>\<open>null\<close> raises a TypeError, an
  object yields its member or \<^verbatim>\<open>undefined\<close>, any other value yields
  \<^verbatim>\<open>undefined\<close>.
\<close>

fun member :: "json \<Rightarrow> string \<Rightarrow> json option" where
  "member (JObj fs) name = map_of fs name"
| "member v name = None"

definition get_prop :: "json \<Rightarrow> string \<Rightarrow> js_error + json option" where
  "get_prop v name = (if v = JNull then Inl TypeError else Inr (member v name))"

text \<open>Decimal rendering of an integer, as string conversion of a number gives it.\<close>

fun show_nat :: "nat \<Rightarrow> string" where
  "show_nat n =
     (if n < 10 then [''0123456789'' ! n]
      else show_nat (n div 10) @ [''0123456789'' ! (n mod 10)])"

declare show_nat.simps [simp del]

definition show_int :: "int \<Rightarrow> string" where
  "show_int i = (if i < 0 then CHR ''-'' # show_nat (nat (- i)) else show_nat (nat i))"

fun join_comma :: "string list \<Rightarrow> string" where
  "join_comma [] = []"
| "join_comma [s] = s"
| "join_comma (s # t # ss) = s @ '','' @ join_comma (t # ss)"

text \<open>
  A list of results is the list of the values, or the first exception.
\<close>

fun collect :: "(js_error + 'a) list \<Rightarrow> js_error + 'a list" where
  "collect [] = Inr []"
| "collect (x # xs) =
     (case x of
        Inl e \<Rightarrow> Inl e
      | Inr v \<Rightarrow> (case collect xs of Inl e \<Rightarrow> Inl e | Inr vs \<Rightarrow> Inr (v # vs)))"

text \<open>
  String conversion, as a template literal \<^verbatim>\<open>`${v}`\<close> performs it. An array joins
  the conversions of its elements with commas (\<^verbatim>\<open>null\<close> elements give the empty
  string). An object that \<^verbatim>\<open>JSON.parse\<close> built has data members only: a member
  \<^verbatim>\<open>toString\<close> of its own hides the inherited method and cannot be called, the
  inherited \<^verbatim>\<open>valueOf\<close> (or a member of that name) yields no primitive value
  either, and the conversion raises a TypeError; without such a member the inherited method
  gives \<^verbatim>\<open>[object Object]\<close>.
\<close>

fun ToString :: "json \<Rightarrow> js_error + string" where
  "ToString JNull = Inr ''null''"
| "ToString (JBool b) = Inr (if b then ''true'' else ''false'')"
| "ToString (JNum n) = Inr (show_int n)"
| "ToString (JStr s) = Inr s"
| "ToString (JArr xs) =
     (case collect (map (\<lambda>x. if x = JNull then Inr [] else ToString x) xs) of
        Inl e \<Rightarrow> Inl e
      | Inr ss \<Rightarrow> Inr (join_comma ss))"
| "ToString (JObj fs) =
     (if map_of fs ''toString'' = None then Inr ''[object Object]'' else Inl TypeError)"

fun template :: "json option \<Rightarrow> js_error + string" where
  "template None = Inr ''undefined''"
| "template (Some v) = ToString v"

text \<open>\<^verbatim>\<open>`${v || ''}`\<close>\<close>

definition template_or_empty :: "json option \<Rightarrow> js_error + string" where
  "template_or_empty v = (if truthy_opt v then template v else Inr [])"

text \<open>
  \<^verbatim>\<open>s.replace(pat, '')\<close> with a string pattern: the first occurrence of \<open>pat\<close> is
  removed.
\<close>

fun replace_first :: "string \<Rightarrow> string \<Rightarrow> string" where
  "replace_first pat [] = []"
| "replace_first pat (c # cs) =
     (if prefix pat (c # cs) then drop (length pat) (c # cs) else c # replace_first pat cs)"

subsection \<open>The key-value namespace\<close>

text \<open>
  A stored value is a string. It is represented by what \<^verbatim>\<open>JSON.parse\<close> makes of it:
  \<open>Json j\<close> is a string that is the JSON text of \<open>j\<close>, \<open>Text s\<close> is the string
  \<open>s\<close>, which is not a JSON text (\<^verbatim>\<open>JSON.parse\<close> raises a SyntaxError on it).
  So \<^verbatim>\<open>JSON.stringify(j)\<close> is \<open>Json j\<close>.
\<close>

datatype kvalue = Text string | Json json

type_synonym store = "(string \<times> kvalue) list"

fun JSON_parse :: "kvalue \<Rightarrow> js_error + json" where
  "JSON_parse (Text s) = Inl SyntaxError"
| "JSON_parse (Json j) = Inr j"

text \<open>A string is falsy exactly when it is empty; a JSON text never is.\<close>

fun truthy_value :: "kvalue \<Rightarrow> bool" where
  "truthy_value (Text s) = (s \<noteq> [])"
| "truthy_value (Json j) = True"

text \<open>
  The continuation token of a listing is the name of the last key of the page; a page that
  ends the listing carries no token. A cursor held by the engine is \<^verbatim>\<open>null\<close>,
  \<^verbatim>\<open>undefined\<close> or a token.
\<close>

datatype js_cursor = Null | Undefined | Cursor string

fun cursor_of_option :: "string option \<Rightarrow> js_cursor" where
  "cursor_of_option None = Undefined"
| "cursor_of_option (Some c) = Cursor c"

record kv_page =
  keys :: "string list"
  list_complete :: bool
  list_cursor :: "string option"

datatype kv_op =
    OpGet string
  | OpPut string kvalue
  | OpDelete string
  | OpList string nat js_cursor kv_page

record upsert =
  repo :: string
  branch :: string
  path :: string
  content :: string
  message :: string

datatype console_entry =
    Log string
  | Warn string
  | Error string
  | ErrorWith string js_error

text \<open>
  The world: the namespace \<open>KV\<close> with the trace \<open>kv_ops\<close> of the calls made on it, the
  system clock (\<open>clock w n\<close> is the \<open>n\<close>-th reading, \<open>ticks\<close> counts the readings
  taken), the console, the files committed to GitHub and which requests GitHub accepts, and
  the built-ins of the runtime this module calls: the two renderings of a date, the time
  value of \<^verbatim>\<open>new Date(v)\<close> (\<open>None\<close> when there is none: the value is NaN,
  or the conversion of \<open>v\<close> raises inside the \<^verbatim>\<open>try\<close> block, which
  skips the key all the same) and the text of a JSON value.
\<close>

record world =
  KV :: store
  kv_ops :: "kv_op list"
  clock :: "nat \<Rightarrow> int"
  ticks :: nat
  console :: "console_entry list"
  github :: "upsert list"
  github_accepts :: "upsert \<Rightarrow> bool"
  Date_toISOString :: "int \<Rightarrow> string"
  Date_toLocaleString :: "int \<Rightarrow> string"
  Date_getTime :: "json \<Rightarrow> int option"
  JSON_text :: "json \<Rightarrow> string"

record config =
  KEEP_PREFIX_MAINTENANCE :: string
  PREFIX_RATELIMIT :: string
  PREFIX_BOT_DETECT :: string
  PREFIX_CAPTCHA :: string
  PREFIX_SUBSCRIBER :: string
  PREFIX_CONTACT :: string
  GITHUB_TOKEN :: "string option"
  GITHUB_OWNER :: "string option"
  GITHUB_BACKUP_REPO :: string
  GITHUB_BACKUP_BRANCH :: string

text \<open>\<^verbatim>\<open>Date.now()\<close> and \<^verbatim>\<open>new Date()\<close> read the clock.\<close>

definition Date_now :: "world \<Rightarrow> int \<times> world" where
  "Date_now w = (clock w (ticks w), w\<lparr>ticks := Suc (ticks w)\<rparr>)"

definition console_log :: "string \<Rightarrow> world \<Rightarrow> world" where
  "console_log msg w = w\<lparr>console := console w @ [Log msg]\<rparr>"

definition console_warn :: "string \<Rightarrow> world \<Rightarrow> world" where
  "console_warn msg w = w\<lparr>console := console w @ [Warn msg]\<rparr>"

definition console_error :: "string \<Rightarrow> world \<Rightarrow> world" where
  "console_error msg w = w\<lparr>console := console w @ [Error msg]\<rparr>"

definition console_error_with :: "string \<Rightarrow> js_error \<Rightarrow> world \<Rightarrow> world" where
  "console_error_with msg e w = w\<lparr>console := console w @ [ErrorWith msg e]\<rparr>"

definition KV_get :: "string \<Rightarrow> world \<Rightarrow> kvalue option \<times> world" where
  "KV_get name w = (map_of (KV w) name, w\<lparr>kv_ops := kv_ops w @ [OpGet name]\<rparr>)"

definition KV_put :: "string \<Rightarrow> kvalue \<Rightarrow> world \<Rightarrow> world" where
  "KV_put name v w =
     w\<lparr>KV := (name, v) # filter (\<lambda>e. fst e \<noteq> name) (KV w),
       kv_ops := kv_ops w @ [OpPut name v]\<rparr>"

definition KV_delete :: "string \<Rightarrow> world \<Rightarrow> world" where
  "KV_delete name w =
     w\<lparr>KV := filter (\<lambda>e. fst e \<noteq> name) (KV w), kv_ops := kv_ops w @ [OpDelete name]\<rparr>"

text \<open>
  \<^verbatim>\<open>KV.list({prefix, limit, cursor})\<close>: the keys under the prefix in lexicographic
  order, from the start when the cursor is \<^verbatim>\<open>null\<close> or \<^verbatim>\<open>undefined\<close> and after
  the token otherwise, at most \<open>limit\<close> of them; \<open>list_complete\<close> tells that no key
  follows the page, and only an incomplete page carries a cursor. A page is as full as the
  limit allows, so a page without keys ends its listing. Every call on the namespace is
  answered; a call that fails is not part of the model.
\<close>

fun after_cursor :: "js_cursor \<Rightarrow> string \<Rightarrow> bool" where
  "after_cursor (Cursor c) k = (c < k)"
| "after_cursor Null k = True"
| "after_cursor Undefined k = True"

definition list_page :: "store \<Rightarrow> string \<Rightarrow> nat \<Rightarrow> js_cursor \<Rightarrow> kv_page" where
  "list_page kv pre limit cur =
     (let ks = sort (remdups (filter (\<lambda>k. prefix pre k \<and> after_cursor cur k) (map fst kv)));
          page = take limit ks
      in \<lparr>keys = page,
          list_complete = (length ks \<le> limit),
          list_cursor = (if length ks \<le> limit \<or> page = [] then None else Some (last page))\<rparr>)"

definition KV_list :: "string \<Rightarrow> nat \<Rightarrow> js_cursor \<Rightarrow> world \<Rightarrow> kv_page \<times> world" where
  "KV_list pre limit cur w =
     (let page = list_page (KV w) pre limit cur
      in (page, w\<lparr>kv_ops := kv_ops w @ [OpList pre limit cur page]\<rparr>))"


section \<open>The archive sink\<close>

text \<open>A configuration value such as \<^verbatim>\<open>GITHUB_TOKEN\<close> is usable when it is set and not empty.\<close>

fun configured :: "string option \<Rightarrow> bool" where
  "configured None = False"
| "configured (Some s) = (s \<noteq> [])"

text \<open>
  \<^verbatim>\<open>createOrUpdateFile\<close> validates the configuration, then sends the file to GitHub.
  The HTTP exchange is the repository's answer to the request: an accepted request commits
  the file, a refused one changes nothing; no exception leaves the function. The result is
  its \<^verbatim>\<open>success\<close> flag. The progress lines the exchange prints are not recorded.
  Since nothing is raised, \<^verbatim>\<open>saveToGitHub\<close> never enters its \<^verbatim>\<open>catch\<close> clause and
  prints its last line whether the file was committed or not.
\<close>

definition createOrUpdateFile :: "config \<Rightarrow> upsert \<Rightarrow> world \<Rightarrow> bool \<times> world" where
  "createOrUpdateFile config u w =
     (if \<not> configured (GITHUB_TOKEN config) then
        (False, console_error ''GITHUB_TOKEN is missing'' w)
      else if \<not> configured (GITHUB_OWNER config) then
        (False, console_error ''GITHUB_OWNER is missing'' w)
      else if github_accepts w u then (True, w\<lparr>github := github w @ [u]\<rparr>)
      else (False, w))"

text \<open>\<^verbatim>\<open>new Date().toISOString().split('T')[0]\<close> at clock reading \<open>t\<close>.\<close>

definition iso_date :: "world \<Rightarrow> int \<Rightarrow> string" where
  "iso_date w t = takeWhile (\<lambda>c. c \<noteq> CHR ''T'') (Date_toISOString w t)"

definition backup_path :: "world \<Rightarrow> int \<Rightarrow> string \<Rightarrow> string" where
  "backup_path w t filename = ''backups/'' @ iso_date w t @ ''-'' @ filename"

definition saveToGitHub :: "config \<Rightarrow> string \<Rightarrow> string \<Rightarrow> world \<Rightarrow> world" where
  "saveToGitHub config filename text w =
     (if \<not> configured (GITHUB_TOKEN config) then
        console_warn ''GitHub token not configured, skipping backup'' w
      else
        (let (t1, w1) = Date_now w;
             (t2, w2) = Date_now w1;
             (ok, w3) = createOrUpdateFile config
                 \<lparr>repo = GITHUB_BACKUP_REPO config,
                  branch = GITHUB_BACKUP_BRANCH config,
                  path = backup_path w t1 filename,
                  content = text,
                  message = ''Incremental backup - '' @ filename @ '' - '' @ Date_toLocaleString w t2\<rparr>
                 w2
         in console_log (''Saved '' @ filename @ '' to GitHub'') w3))"

section \<open>The checkpoint\<close>

record state =
  phase :: string
  cursor :: js_cursor
  processed :: int
  startedAt :: string

record handler_result =
  complete :: bool
  res_cursor :: js_cursor
  count :: int

datatype maint_result = Complete | Chunk string int

text \<open>
  \<^verbatim>\<open>JSON.stringify(state)\<close>: a member that is \<^verbatim>\<open>undefined\<close> is left out.
\<close>

definition stringify_state :: "state \<Rightarrow> json" where
  "stringify_state s =
     JObj ([(''phase'', JStr (phase s))]
           @ (case cursor s of Null \<Rightarrow> [(''cursor'', JNull)]
                | Undefined \<Rightarrow> []
                | Cursor c \<Rightarrow> [(''cursor'', JStr c)])
           @ [(''processed'', JNum (processed s)), (''startedAt'', JStr (startedAt s))])"

text \<open>
  Reading the stored checkpoint back. The text \<^verbatim>\<open>null\<close> parses, and the first
  property access on it raises a TypeError. A JSON value that is not a checkpoint as this
  module writes it (a string phase, a cursor that is absent, \<^verbatim>\<open>null\<close> or a string,
  an integer count, a string start date) is outside the model.
\<close>

fun cursor_of_json :: "json option \<Rightarrow> js_cursor option" where
  "cursor_of_json None = Some Undefined"
| "cursor_of_json (Some JNull) = Some Null"
| "cursor_of_json (Some (JStr c)) = Some (Cursor c)"
| "cursor_of_json (Some v) = None"

definition state_of_json :: "json \<Rightarrow> js_error + state" where
  "state_of_json j =
     (case j of
        JNull \<Rightarrow> Inl TypeError
      | JObj fs \<Rightarrow>
          (case (map_of fs ''phase'', cursor_of_json (map_of fs ''cursor''),
                 map_of fs ''processed'', map_of fs ''startedAt'') of
             (Some (JStr p), Some c, Some (JNum n), Some (JStr d)) \<Rightarrow>
               Inr \<lparr>phase = p, cursor = c, processed = n, startedAt = d\<rparr>
           | _ \<Rightarrow> Inl Unmodelled)
      | _ \<Rightarrow> Inl Unmodelled)"

definition parse_state :: "kvalue \<Rightarrow> js_error + state" where
  "parse_state v = (case JSON_parse v of Inl e \<Rightarrow> Inl e | Inr j \<Rightarrow> state_of_json j)"

section \<open>The sweep-and-delete handler\<close>

definition prefixesToClean :: "config \<Rightarrow> (string \<times> int) list" where
  "prefixesToClean config =
     [(PREFIX_RATELIMIT config, 24 * 60 * 60 * 1000),
      (PREFIX_BOT_DETECT config, 7 * 24 * 60 * 60 * 1000),
      (PREFIX_CAPTCHA config, 60 * 60 * 1000)]"

text \<open>\<^verbatim>\<open>data.timestamp || data.createdAt\<close>\<close>

definition timestamp_of :: "json \<Rightarrow> js_error + json option" where
  "timestamp_of data =
     (case get_prop data ''timestamp'' of
        Inl e \<Rightarrow> Inl e
      | Inr a \<Rightarrow> if truthy_opt a then Inr a else get_prop data ''createdAt'')"

text \<open>\<^verbatim>\<open>timestamp && (now - new Date(timestamp).getTime()) > maxAge\<close>\<close>

definition expired :: "world \<Rightarrow> int \<Rightarrow> int \<Rightarrow> json option \<Rightarrow> bool" where
  "expired w now maxAge ts =
     (case ts of
        None \<Rightarrow> False
      | Some v \<Rightarrow> truthy v \<and>
          (case Date_getTime w v of None \<Rightarrow> False | Some t \<Rightarrow> now - t > maxAge))"

text \<open>
  The body of the \<^verbatim>\<open>try\<close> block for one key: the result tells whether the key was
  deleted (and counted), or which exception the block raised.
\<close>

definition cleanup_try :: "int \<Rightarrow> int \<Rightarrow> string \<Rightarrow> world \<Rightarrow> (js_error + bool) \<times> world" where
  "cleanup_try now maxAge name w =
     (let (v, w1) = KV_get name w in
      case v of
        None \<Rightarrow> (Inr False, w1)
      | Some x \<Rightarrow>
          if \<not> truthy_value x then (Inr False, w1)
          else (case JSON_parse x of
                  Inl e \<Rightarrow> (Inl e, w1)
                | Inr data \<Rightarrow>
                    (case timestamp_of data of
                       Inl e \<Rightarrow> (Inl e, w1)
                     | Inr ts \<Rightarrow>
                         if expired w1 now maxAge ts then (Inr True, KV_delete name w1)
                         else (Inr False, w1))))"

text \<open>The \<^verbatim>\<open>catch\<close> clause is empty: an exception skips the key.\<close>

definition cleanup_entry :: "int \<Rightarrow> int \<Rightarrow> string \<Rightarrow> world \<Rightarrow> bool \<times> world" where
  "cleanup_entry now maxAge name w =
     (case cleanup_try now maxAge name w of
        (Inl e, w1) \<Rightarrow> (False, w1)
      | (Inr deleted, w1) \<Rightarrow> (deleted, w1))"

text \<open>
  The loop over the keys of one page. The first component tells that the time limit stopped
  the loop.
\<close>

fun cleanup_keys ::
  "int \<Rightarrow> int \<Rightarrow> int \<Rightarrow> int \<Rightarrow> string list \<Rightarrow> int \<Rightarrow> world \<Rightarrow> bool \<times> int \<times> world" where
  "cleanup_keys startTime maxTime now maxAge [] n w = (False, n, w)"
| "cleanup_keys startTime maxTime now maxAge (name # rest) n w =
     (let (t, w1) = Date_now w in
      if t - startTime > maxTime then (True, n, w1)
      else
        (let (deleted, w2) = cleanup_entry now maxAge name w1
         in cleanup_keys startTime maxTime now maxAge rest (if deleted then n + 1 else n) w2))"

text \<open>The loop over the partitions; every partition is listed from the checkpoint's cursor.\<close>

fun cleanup_prefixes ::
  "js_cursor \<Rightarrow> int \<Rightarrow> int \<Rightarrow> int \<Rightarrow> (string \<times> int) list \<Rightarrow> int \<Rightarrow> world
     \<Rightarrow> handler_result \<times> world" where
  "cleanup_prefixes cur startTime maxTime now [] n w =
     (\<lparr>complete = True, res_cursor = Undefined, count = n\<rparr>, w)"
| "cleanup_prefixes cur startTime maxTime now ((pre, maxAge) # rest) n w =
     (let (t, w1) = Date_now w in
      if t - startTime > maxTime then (\<lparr>complete = False, res_cursor = cur, count = n\<rparr>, w1)
      else
        (let (page, w2) = KV_list pre 5 cur w1 in
         if keys page = [] then cleanup_prefixes cur startTime maxTime now rest n w2
         else
           (let (timeout, n', w3) = cleanup_keys startTime maxTime now maxAge (keys page) n w2 in
            if timeout then
              (\<lparr>complete = False, res_cursor = cursor_of_option (list_cursor page), count = n'\<rparr>, w3)
            else if \<not> list_complete page then
              (\<lparr>complete = False, res_cursor = cursor_of_option (list_cursor page), count = n'\<rparr>, w3)
            else cleanup_prefixes cur startTime maxTime now rest n' w3)))"

definition cleanupIncremental :: "config \<Rightarrow> state \<Rightarrow> int \<Rightarrow> world \<Rightarrow> handler_result \<times> world" where
  "cleanupIncremental config st maxTime w =
     (let (startTime, w1) = Date_now w;
          (now, w2) = Date_now w1
      in cleanup_prefixes (cursor st) startTime maxTime now (prefixesToClean config) 0 w2)"


section \<open>The archive builders\<close>

text \<open>
  \<^verbatim>\<open>backupSubscribersIncremental\<close> and \<^verbatim>\<open>backupContactsIncremental\<close> are the same
  code up to the buffer's key, the header line, the partition, the length test before a flush
  of the buffer on an empty page, the file name and the row of a record. \<open>archive\<close> collects
  these; \<open>backupIncremental\<close> is the common code, and the two handlers are its instances.
\<close>

record archive =
  csv_name :: string
  header :: string
  source_prefix :: string
  flush_above :: nat
  filename :: string
  row_of :: "string \<Rightarrow> json \<Rightarrow> js_error + string"

text \<open>
  A row: every field between double quotes, fields separated by commas, a line feed. The
  template literal that builds it converts each field to a string and raises what a
  conversion raises.
\<close>

definition quoted :: "string \<Rightarrow> string" where
  "quoted s = CHR 0x22 # s @ [CHR 0x22]"

definition csv_row :: "string list \<Rightarrow> string" where
  "csv_row cells = join_comma (map quoted cells) @ [CHR 0x0A]"

definition subscriber_row :: "config \<Rightarrow> string \<Rightarrow> json \<Rightarrow> js_error + string" where
  "subscriber_row config name subscriberData =
     (let email = replace_first (PREFIX_SUBSCRIBER config) name in
      case get_prop subscriberData ''ipAddress'' of
        Inl e \<Rightarrow> Inl e
      | Inr ip \<Rightarrow>
          (case get_prop subscriberData ''timestamp'' of
             Inl e \<Rightarrow> Inl e
           | Inr ts \<Rightarrow>
               (case collect [Inr email, template_or_empty ip, template_or_empty ts] of
                  Inl e \<Rightarrow> Inl e
                | Inr cells \<Rightarrow> Inr (csv_row cells))))"

definition contact_row :: "string \<Rightarrow> json \<Rightarrow> js_error + string" where
  "contact_row name contact =
     (if contact = JNull then Inl TypeError
      else
        (case collect
           [template (member contact ''email''),
            template (member contact ''name''),
            template (member contact ''phone''),
            template (member contact ''message''),
            template (member contact ''subscribed''),
            template_or_empty (member contact ''ipAddress''),
            template_or_empty (member contact ''timestamp'')] of
           Inl e \<Rightarrow> Inl e
         | Inr cells \<Rightarrow> Inr (csv_row cells)))"

definition subscribers_archive :: "config \<Rightarrow> archive" where
  "subscribers_archive config =
     \<lparr>csv_name = KEEP_PREFIX_MAINTENANCE config @ ''backup-csv-subscribers'',
      header = ''email,ip_address,timestamp'' @ [CHR 0x0A],
      source_prefix = PREFIX_SUBSCRIBER config,
      flush_above = 30,
      filename = ''subscribers-backup.csv'',
      row_of = subscriber_row config\<rparr>"

definition contacts_archive :: "config \<Rightarrow> archive" where
  "contacts_archive config =
     \<lparr>csv_name = KEEP_PREFIX_MAINTENANCE config @ ''backup-csv-contacts'',
      header = ''email,name,phone,message,subscribed,ip_address,timestamp'' @ [CHR 0x0A],
      source_prefix = PREFIX_CONTACT config,
      flush_above = 50,
      filename = ''contacts-backup.csv'',
      row_of = contact_row\<rparr>"

text \<open>
  The buffer \<^verbatim>\<open>existingCsv\<close> is a string: the stored one, or the header when none is
  stored (or an empty one). Appending a row to it gives a string that is not a JSON text.
\<close>

definition csv_text :: "world \<Rightarrow> kvalue \<Rightarrow> string" where
  "csv_text w v = (case v of Text s \<Rightarrow> s | Json j \<Rightarrow> JSON_text w j)"

definition csv_or_header :: "archive \<Rightarrow> kvalue option \<Rightarrow> kvalue" where
  "csv_or_header a v =
     (case v of None \<Rightarrow> Text (header a)
      | Some x \<Rightarrow> if truthy_value x then x else Text (header a))"

definition csv_append :: "world \<Rightarrow> kvalue \<Rightarrow> string \<Rightarrow> kvalue" where
  "csv_append w v row = Text (csv_text w v @ row)"

text \<open>
  The \<^verbatim>\<open>try\<close> block for one key: the row to append (\<open>None\<close> when the key has no
  value), or the exception raised before anything was appended.
\<close>

definition backup_try :: "archive \<Rightarrow> string \<Rightarrow> world \<Rightarrow> (js_error + string option) \<times> world" where
  "backup_try a name w =
     (let (v, w1) = KV_get name w in
      case v of
        None \<Rightarrow> (Inr None, w1)
      | Some x \<Rightarrow>
          if \<not> truthy_value x then (Inr None, w1)
          else (case JSON_parse x of
                  Inl e \<Rightarrow> (Inl e, w1)
                | Inr data \<Rightarrow>
                    (case row_of a name data of
                       Inl e \<Rightarrow> (Inl e, w1)
                     | Inr row \<Rightarrow> (Inr (Some row), w1))))"

definition backup_entry :: "archive \<Rightarrow> string \<Rightarrow> world \<Rightarrow> string option \<times> world" where
  "backup_entry a name w =
     (case backup_try a name w of
        (Inl e, w1) \<Rightarrow> (None, w1)
      | (Inr row, w1) \<Rightarrow> (row, w1))"

text \<open>
  The loop over the keys of the page. When the time limit stops it, the buffer is stored
  before the loop is left (first component \<open>True\<close>).
\<close>

fun backup_keys ::
  "archive \<Rightarrow> int \<Rightarrow> int \<Rightarrow> string list \<Rightarrow> kvalue \<Rightarrow> int \<Rightarrow> world
     \<Rightarrow> bool \<times> kvalue \<times> int \<times> world" where
  "backup_keys a startTime maxTime [] csv n w = (False, csv, n, w)"
| "backup_keys a startTime maxTime (name # rest) csv n w =
     (let (t, w1) = Date_now w in
      if t - startTime > maxTime then (True, csv, n, KV_put (csv_name a) csv w1)
      else
        (let (row, w2) = backup_entry a name w1 in
         case row of
           None \<Rightarrow> backup_keys a startTime maxTime rest csv n w2
         | Some r \<Rightarrow> backup_keys a startTime maxTime rest (csv_append w2 csv r) (n + 1) w2))"

definition backupIncremental :: "config \<Rightarrow> archive \<Rightarrow> state \<Rightarrow> int \<Rightarrow> world \<Rightarrow> handler_result \<times> world" where
  "backupIncremental config a st maxTime w =
     (let (startTime, w1) = Date_now w;
          (v, w2) = KV_get (csv_name a) w1;
          existingCsv = csv_or_header a v;
          (page, w3) = KV_list (source_prefix a) 20 (cursor st) w2
      in
      if keys page = [] then
        (\<lparr>complete = True, res_cursor = Undefined, count = 0\<rparr>,
         if truthy_value existingCsv \<and> length (csv_text w3 existingCsv) > flush_above a
         then KV_delete (csv_name a)
                (saveToGitHub config (filename a) (csv_text w3 existingCsv) w3)
         else w3)
      else
        (let (timeout, csv, n, w4) = backup_keys a startTime maxTime (keys page) existingCsv 0 w3 in
         if timeout then
           (\<lparr>complete = False, res_cursor = cursor_of_option (list_cursor page), count = n\<rparr>, w4)
         else
           (let w5 = KV_put (csv_name a) csv w4 in
            if list_complete page then
              (\<lparr>complete = True, res_cursor = Undefined, count = n\<rparr>,
               KV_delete (csv_name a) (saveToGitHub config (filename a) (csv_text w5 csv) w5))
            else
              (\<lparr>complete = False, res_cursor = cursor_of_option (list_cursor page), count = n\<rparr>,
               w5))))"

definition backupSubscribersIncremental ::
  "config \<Rightarrow> state \<Rightarrow> int \<Rightarrow> world \<Rightarrow> handler_result \<times> world" where
  "backupSubscribersIncremental config = backupIncremental config (subscribers_archive config)"

definition backupContactsIncremental ::
  "config \<Rightarrow> state \<Rightarrow> int \<Rightarrow> world \<Rightarrow> handler_result \<times> world" where
  "backupContactsIncremental config = backupIncremental config (contacts_archive config)"

section \<open>The phase scheduler\<close>

definition stateKey :: "config \<Rightarrow> string" where
  "stateKey config = KEEP_PREFIX_MAINTENANCE config @ ''incremental-state''"

definition lastCompleteKey :: "config \<Rightarrow> string" where
  "lastCompleteKey config = KEEP_PREFIX_MAINTENANCE config @ ''last-complete''"

definition MAX_EXECUTION_TIME :: int where
  "MAX_EXECUTION_TIME = 8"

text \<open>The checkpoint as stored, or the initial one when none is stored.\<close>

definition load_state :: "world \<Rightarrow> kvalue option \<Rightarrow> (js_error + state) \<times> world" where
  "load_state w stateData =
     (case stateData of
        Some v \<Rightarrow>
          if truthy_value v then (parse_state v, w)
          else (let (t, w1) = Date_now w in
                (Inr \<lparr>phase = ''cleanup'', cursor = Null, processed = 0,
                       startedAt = Date_toISOString w t\<rparr>, w1))
      | None \<Rightarrow>
          (let (t, w1) = Date_now w in
           (Inr \<lparr>phase = ''cleanup'', cursor = Null, processed = 0,
                  startedAt = Date_toISOString w t\<rparr>, w1)))"

text \<open>What the scheduler does to the checkpoint with the report of a handler.\<close>

definition advance :: "string \<Rightarrow> state \<Rightarrow> handler_result \<Rightarrow> state" where
  "advance next st r =
     (if complete r then st\<lparr>phase := next, cursor := Null, processed := 0\<rparr>
      else st\<lparr>cursor := res_cursor r, processed := processed st + count r\<rparr>)"

text \<open>The end of an invocation that continues the cycle: the checkpoint is stored.\<close>

definition save_state :: "config \<Rightarrow> int \<Rightarrow> state \<Rightarrow> world \<Rightarrow> (js_error + maint_result) \<times> world" where
  "save_state config startTime st w =
     (let w1 = KV_put (stateKey config) (Json (stringify_state st)) w;
          (t, w2) = Date_now w1;
          w3 = console_log
                 (''Incremental maintenance chunk completed in '' @ show_int (t - startTime) @ ''ms'')
                 w2
      in (Inr (Chunk (phase st) (processed st)), w3))"

definition phase_line :: "state \<Rightarrow> string" where
  "phase_line st =
     ''Incremental maintenance: Phase '' @ phase st @ '', Processed '' @ show_int (processed st)"

definition completion_record :: "string \<Rightarrow> int \<Rightarrow> json" where
  "completion_record completedAt totalProcessed =
     JObj [(''completedAt'', JStr completedAt), (''totalProcessed'', JNum totalProcessed)]"

definition runIncrementalMaintenance :: "config \<Rightarrow> world \<Rightarrow> (js_error + maint_result) \<times> world" where
  "runIncrementalMaintenance config w =
     (let (startTime, w1) = Date_now w;
          (stateData, w2) = KV_get (stateKey config) w1
      in
      case load_state w2 stateData of
        (Inl e, w3) \<Rightarrow> (Inl e, console_error_with ''Incremental maintenance error:'' e w3)
      | (Inr st, w3) \<Rightarrow>
          (let w4 = console_log (phase_line st) w3 in
           if phase st = ''cleanup'' then
             (let (t, w5) = Date_now w4;
                  (r, w6) = cleanupIncremental config st (MAX_EXECUTION_TIME - (t - startTime)) w5
              in save_state config startTime (advance ''backup-subscribers'' st r) w6)
           else if phase st = ''backup-subscribers'' then
             (let (t, w5) = Date_now w4;
                  (r, w6) = backupSubscribersIncremental config st
                              (MAX_EXECUTION_TIME - (t - startTime)) w5
              in save_state config startTime (advance ''backup-contacts'' st r) w6)
           else if phase st = ''backup-contacts'' then
             (let (t, w5) = Date_now w4;
                  (r, w6) = backupContactsIncremental config st
                              (MAX_EXECUTION_TIME - (t - startTime)) w5
              in
              if complete r then
                (let w7 = KV_delete (stateKey config) w6;
                     (t', w8) = Date_now w7;
                     w9 = KV_put (lastCompleteKey config)
                            (Json (completion_record (Date_toISOString w t') (processed st))) w8
                 in (Inr Complete, console_log ''Incremental maintenance completed'' w9))
              else save_state config startTime (advance ''backup-contacts'' st r) w6)
           else save_state config startTime st w4))"

section \<open>Vocabulary of the properties\<close>

text \<open>
  The checkpoint an invocation loads and the report of the handler it dispatches to, called
  as the scheduler calls it; \<open>None\<close> when loading the checkpoint raises or its phase has no
  handler.
\<close>

definition handler_report :: "config \<Rightarrow> world \<Rightarrow> (state \<times> handler_result) option" where
  "handler_report config w =
     (let (startTime, w1) = Date_now w;
          (stateData, w2) = KV_get (stateKey config) w1
      in
      case load_state w2 stateData of
        (Inl e, w3) \<Rightarrow> None
      | (Inr st, w3) \<Rightarrow>
          (let (t, w5) = Date_now (console_log (phase_line st) w3);
               maxTime = MAX_EXECUTION_TIME - (t - startTime)
           in
           if phase st = ''cleanup'' then
             Some (st, fst (cleanupIncremental config st maxTime w5))
           else if phase st = ''backup-subscribers'' then
             Some (st, fst (backupSubscribersIncremental config st maxTime w5))
           else if phase st = ''backup-contacts'' then
             Some (st, fst (backupContactsIncremental config st maxTime w5))
           else None))"

text \<open>The fixed order of the phases.\<close>

definition next_phase :: "string \<Rightarrow> string" where
  "next_phase p =
     (if p = ''cleanup'' then ''backup-subscribers''
      else if p = ''backup-subscribers'' then ''backup-contacts''
      else ''cleanup'')"

text \<open>The value stored under a key.\<close>

definition stored :: "world \<Rightarrow> string \<Rightarrow> kvalue option" where
  "stored w name = map_of (KV w) name"

text \<open>Counting, in a trace, the reads of a key and the writes (puts and deletes) to it.\<close>

fun is_read :: "string \<Rightarrow> kv_op \<Rightarrow> bool" where
  "is_read k (OpGet n) = (n = k)"
| "is_read k op = False"

fun is_write :: "string \<Rightarrow> kv_op \<Rightarrow> bool" where
  "is_write k (OpPut n v) = (n = k)"
| "is_write k (OpDelete n) = (n = k)"
| "is_write k op = False"

definition reads :: "string \<Rightarrow> kv_op list \<Rightarrow> nat" where
  "reads k ops = length (filter (is_read k) ops)"

definition writes :: "string \<Rightarrow> kv_op list \<Rightarrow> nat" where
  "writes k ops = length (filter (is_write k) ops)"

fun is_list :: "kv_op \<Rightarrow> bool" where
  "is_list (OpList pre limit cur page) = True"
| "is_list op = False"

text \<open>No partition that a handler enumerates holds the checkpoint's key.\<close>

definition checkpoint_apart :: "config \<Rightarrow> bool" where
  "checkpoint_apart config =
     (\<not> prefix (PREFIX_RATELIMIT config) (stateKey config) \<and>
      \<not> prefix (PREFIX_BOT_DETECT config) (stateKey config) \<and>
      \<not> prefix (PREFIX_CAPTCHA config) (stateKey config) \<and>
      \<not> prefix (PREFIX_SUBSCRIBER config) (stateKey config) \<and>
      \<not> prefix (PREFIX_CONTACT config) (stateKey config))"

subsection \<open>A concrete deployment\<close>

definition cfg0 :: config where
  "cfg0 =
     \<lparr>KEEP_PREFIX_MAINTENANCE = ''maintenance:'',
      PREFIX_RATELIMIT = ''ratelimit:'',
      PREFIX_BOT_DETECT = ''bot-detect:'',
      PREFIX_CAPTCHA = ''captcha:'',
      PREFIX_SUBSCRIBER = ''subscriber:'',
      PREFIX_CONTACT = ''contact:'',
      GITHUB_TOKEN = Some ''token'',
      GITHUB_OWNER = Some ''owner'',
      GITHUB_BACKUP_REPO = ''backups'',
      GITHUB_BACKUP_BRANCH = ''main''\<rparr>"

text \<open>
  A world with the given store and clock: GitHub accepts every request, every date renders as
  the first of January 2024, and \<^verbatim>\<open>new Date(v)\<close> of a number is that number of
  milliseconds.
\<close>

definition world0 :: "store \<Rightarrow> (nat \<Rightarrow> int) \<Rightarrow> world" where
  "world0 kv clk =
     \<lparr>KV = kv, kv_ops = [], clock = clk, ticks = 0, console = [], github = [],
      github_accepts = (\<lambda>u. True),
      Date_toISOString = (\<lambda>t. ''2024-01-01T00:00:00.000Z''),
      Date_toLocaleString = (\<lambda>t. ''1/1/2024, 12:00:00 AM''),
      Date_getTime = (\<lambda>v. case v of JNum n \<Rightarrow> Some n | _ \<Rightarrow> None),
      JSON_text = (\<lambda>j. ''{}'')\<rparr>"

definition checkpoint0 :: "string \<Rightarrow> js_cursor \<Rightarrow> int \<Rightarrow> string \<times> kvalue" where
  "checkpoint0 p c n =
     (''maintenance:incremental-state'',
      Json (stringify_state
        \<lparr>phase = p, cursor = c, processed = n, startedAt = ''2024-01-01T00:00:00.000Z''\<rparr>))"

text \<open>One contact record, and the checkpoint of the contacts phase with three rows counted.\<close>

definition kv_contacts :: store where
  "kv_contacts =
     [checkpoint0 ''backup-contacts'' Null 3,
      (''contact:ann@example.org'',
       Json (JObj [(''email'', JStr ''ann@example.org''), (''name'', JStr ''Ann'')]))]"

text \<open>An operation that reads or writes the value of a key.\<close>

fun touches :: "string \<Rightarrow> kv_op \<Rightarrow> bool" where
  "touches k (OpGet n) = (n = k)"
| "touches k (OpPut n v) = (n = k)"
| "touches k (OpDelete n) = (n = k)"
| "touches k (OpList pre limit cur page) = False"

text \<open>
  Six rate-limit records, one bot-detection record and one captcha record, all written at
  millisecond 5; the store and the checkpoint that the first invocation of a cycle leaves of
  them at clock reading 1000000000, when all of them are older than the maximal age of their
  partition.
\<close>

definition kv_sweep :: store where
  "kv_sweep =
     map (\<lambda>c. (''ratelimit:10.0.0.'' @ [c], Json (JObj [(''timestamp'', JNum 5)]))) ''123456''
     @ [(''bot-detect:10.0.0.9'', Json (JObj [(''timestamp'', JNum 5)])),
        (''captcha:10.0.0.9'', Json (JObj [(''createdAt'', JNum 5)]))]"

definition state_resumed :: state where
  "state_resumed = \<lparr>phase = ''cleanup'', cursor = Cursor ''ratelimit:10.0.0.5'', processed = 5,
             startedAt = ''2024-01-01T00:00:00.000Z''\<rparr>"

definition kv_resumed :: store where
  "kv_resumed =
     [checkpoint0 ''cleanup'' (Cursor ''ratelimit:10.0.0.5'') 5,
      (''ratelimit:10.0.0.6'', Json (JObj [(''timestamp'', JNum 5)])),
      (''bot-detect:10.0.0.9'', Json (JObj [(''timestamp'', JNum 5)])),
      (''captcha:10.0.0.9'', Json (JObj [(''createdAt'', JNum 5)]))]"



text \<open>
  A record's timestamp, in the words of the specification: its \<open>timestamp\<close> member or,
  failing that, its \<open>createdAt\<close> member (a member that is absent, \<^verbatim>\<open>null\<close>,
  \<^verbatim>\<open>false\<close>, zero or empty fails). A record is expired when its value is stored, parses
  as JSON, has a timestamp, and the current time minus that timestamp exceeds the maximal
  age.
\<close>

definition first_truthy :: "json option \<Rightarrow> json option \<Rightarrow> json option" where
  "first_truthy a b = (if truthy_opt a then a else if truthy_opt b then b else None)"

definition timestamp_field :: "json \<Rightarrow> json option" where
  "timestamp_field j =
     (case j of JObj fs \<Rightarrow> first_truthy (map_of fs ''timestamp'') (map_of fs ''createdAt'')
      | _ \<Rightarrow> None)"

definition record_expired :: "world \<Rightarrow> int \<Rightarrow> int \<Rightarrow> string \<Rightarrow> bool" where
  "record_expired w now maxAge name =
     (case stored w name of
        Some (Json j) \<Rightarrow>
          (case timestamp_field j of
             Some ts \<Rightarrow> (case Date_getTime w ts of Some t \<Rightarrow> now - t > maxAge | None \<Rightarrow> False)
           | None \<Rightarrow> False)
      | _ \<Rightarrow> False)"

text \<open>
  An archive builder has flushed the buffer \<open>buf\<close>: it reports completion with a count of
  zero, the buffer is gone from the store and, when GitHub is usable (token and owner
  configured, requests accepted), GitHub holds one more file, with the buffer as content,
  under the path made of the date of the clock reading and the file name.
\<close>

definition usable :: "config \<Rightarrow> world \<Rightarrow> bool" where
  "usable config w =
     (configured (GITHUB_TOKEN config) \<and> configured (GITHUB_OWNER config) \<and>
      (\<forall>u. github_accepts w u))"

definition flushed :: "config \<Rightarrow> archive \<Rightarrow> world \<Rightarrow> string \<Rightarrow> handler_result \<times> world \<Rightarrow> bool" where
  "flushed config a w buf rw =
     (fst rw = \<lparr>complete = True, res_cursor = Undefined, count = 0\<rparr> \<and>
      stored (snd rw) (csv_name a) = None \<and>
      (usable config w \<longrightarrow>
        (\<exists>msg. github (snd rw) = github w @
           [\<lparr>repo = GITHUB_BACKUP_REPO config, branch = GITHUB_BACKUP_BRANCH config,
             path = backup_path w (clock w (Suc (ticks w))) (filename a),
             content = buf, message = msg\<rparr>])))"

text \<open>
  A flush is due when the handler reports completion on a page with keys, or on an empty page
  with a buffer longer than the handler's threshold. The flush is skipped and the buffer
  dropped: nothing reaches GitHub, the warning is printed, the buffer is gone from the store.
\<close>

definition flush_due :: "archive \<Rightarrow> state \<Rightarrow> world \<Rightarrow> handler_result \<Rightarrow> bool" where
  "flush_due a st w r =
     (complete r \<and>
      (keys (list_page (KV w) (source_prefix a) 20 (cursor st)) \<noteq> [] \<or>
       flush_above a < length (csv_text w (csv_or_header a (stored w (csv_name a))))))"

definition skipped_and_dropped :: "archive \<Rightarrow> world \<Rightarrow> world \<Rightarrow> bool" where
  "skipped_and_dropped a w w' =
     (github w' = github w \<and> stored w' (csv_name a) = None \<and>
      console w' = console w @ [Warn ''GitHub token not configured, skipping backup''])"

text \<open>The deployment without a GitHub token; stores with one subscriber and with buffers.\<close>

definition cfg_no_token :: config where
  "cfg_no_token = cfg0\<lparr>GITHUB_TOKEN := None\<rparr>"

definition kv_one_subscriber :: store where
  "kv_one_subscriber =
     [checkpoint0 ''backup-subscribers'' Null 0,
      (''subscriber:ann@example.org'',
       Json (JObj [(''ipAddress'', JStr ''10.0.0.1''), (''timestamp'', JStr ''2024-01-01'')]))]"

definition state_subscribers :: state where
  "state_subscribers = \<lparr>phase = ''backup-subscribers'', cursor = Null, processed = 0,
             startedAt = ''2024-01-01T00:00:00.000Z''\<rparr>"

definition kv_buffered :: store where
  "kv_buffered =
     [(''maintenance:backup-csv-subscribers'',
       Text (''email,ip_address,timestamp'' @ [CHR 0x0A]
             @ csv_row [''ann@example.org'', ''10.0.0.1'', ''2024-01-01''] @ [])),
      (''maintenance:backup-csv-contacts'',
       Text (''email,name,phone,message,subscribed,ip_address,timestamp'' @ [CHR 0x0A]
             @ csv_row [''ann@example.org'', ''Ann'', ''555'', ''hello'', ''true'', ''10.0.0.1'',
                        ''2024-01-01''] @ []))]"

text \<open>
  The phase the next invocation executes: the phase of the stored checkpoint, or the first
  phase when no checkpoint is stored (\<open>None\<close> when loading it raises).
\<close>

definition active_phase :: "config \<Rightarrow> world \<Rightarrow> string option" where
  "active_phase config w =
     (case fst (load_state w (stored w (stateKey config))) of
        Inl e \<Rightarrow> None
      | Inr st \<Rightarrow> Some (phase st))"

definition phases :: "string set" where
  "phases = {''cleanup'', ''backup-subscribers'', ''backup-contacts''}"

text \<open>
  The worlds reachable from an absent checkpoint: between invocations the rest of the world
  may change in any way (other writers of the namespace, the clock, the console), the
  checkpoint's key is written by the scheduler only.
\<close>

inductive reachable :: "config \<Rightarrow> world \<Rightarrow> bool" for config where
  start: "stored w (stateKey config) = None \<Longrightarrow> reachable config w"
| invoke: "reachable config w \<Longrightarrow> reachable config (snd (runIncrementalMaintenance config w))"
| others: "reachable config w \<Longrightarrow> stored w' (stateKey config) = stored w (stateKey config)
            \<Longrightarrow> reachable config w'"

definition checkpoint_ok :: "config \<Rightarrow> world \<Rightarrow> bool" where
  "checkpoint_ok config w =
     (stored w (stateKey config) = None \<or>
      (\<exists>st. stored w (stateKey config) = Some (Json (stringify_state st)) \<and> phase st \<in> phases))"

text \<open>
  An invocation keeps the fixed order: it loads a checkpoint of one of the three phases and
  dispatches to that phase's handler; afterwards the active phase is the same phase when the
  handler did not report completion and the next phase in the order when it did, where the
  phase after the last one is the first phase of a new cycle, reached exactly by deleting
  the checkpoint.
\<close>

definition in_order :: "config \<Rightarrow> world \<Rightarrow> state \<Rightarrow> handler_result \<Rightarrow> bool" where
  "in_order config w st r =
     (handler_report config w = Some (st, r) \<and> phase st \<in> phases \<and>
      active_phase config w = Some (phase st) \<and>
      active_phase config (snd (runIncrementalMaintenance config w)) =
        Some (if complete r then next_phase (phase st) else phase st) \<and>
      (stored (snd (runIncrementalMaintenance config w)) (stateKey config) = None) =
        (phase st = ''backup-contacts'' \<and> complete r))"

text \<open>
  Two subscribers under the checkpoint of the subscribers phase, and a clock that jumps from
  0 to 100 milliseconds at its fifth reading (the time check before the second key of the
  first invocation).
\<close>

definition kv_two_subscribers :: store where
  "kv_two_subscribers =
     [checkpoint0 ''backup-subscribers'' Null 0,
      (''subscriber:ann@example.org'',
       Json (JObj [(''ipAddress'', JStr ''10.0.0.1''), (''timestamp'', JStr ''2024-01-01'')])),
      (''subscriber:bob@example.org'',
       Json (JObj [(''ipAddress'', JStr ''10.0.0.2''), (''timestamp'', JStr ''2024-01-02'')]))]"

definition clock_late :: "nat \<Rightarrow> int" where
  "clock_late n = (if n < 4 then 0 else 100)"

definition row_ann :: string where
  "row_ann = csv_row [''ann@example.org'', ''10.0.0.1'', ''2024-01-01'']"

definition row_bob :: string where
  "row_bob = csv_row [''bob@example.org'', ''10.0.0.2'', ''2024-01-02'']"


















section \<open>Properties\<close>

subsection \<open>The store\<close>

lemma map_of_filter_same: "map_of (filter (\<lambda>e. fst e \<noteq> k) kv) k = None"
  by (induction kv) auto

lemma map_of_filter_other:
  "k' \<noteq> k \<Longrightarrow> map_of (filter (\<lambda>e. fst e \<noteq> k) kv) k' = map_of kv k'"
  by (induction kv) auto

lemma stored_KV_put: "stored (KV_put k v w) k' = (if k' = k then Some v else stored w k')"
  by (simp add: stored_def KV_put_def map_of_filter_other)

lemma stored_KV_delete: "stored (KV_delete k w) k' = (if k' = k then None else stored w k')"
  by (simp add: stored_def KV_delete_def map_of_filter_other map_of_filter_same)

lemma stored_console_log: "stored (console_log m w) = stored w"
  by (simp add: stored_def console_log_def fun_eq_iff)

lemma stored_Date_now: "stored (snd (Date_now w)) = stored w"
  by (simp add: stored_def Date_now_def fun_eq_iff)

lemma fst_KV_get: "fst (KV_get k w) = stored w k"
  by (simp add: KV_get_def stored_def)


subsection \<open>The checkpoint and the end of an invocation\<close>

lemma stateKey_neq_lastCompleteKey: "stateKey config \<noteq> lastCompleteKey config"
  by (simp add: stateKey_def lastCompleteKey_def)

lemma stored_save_state:
  "stored (snd (save_state config t0 st w)) (stateKey config) = Some (Json (stringify_state st))"
  by (simp add: save_state_def Let_def split_def stored_console_log stored_Date_now stored_KV_put)

lemma fst_save_state: "fst (save_state config t0 st w) = Inr (Chunk (phase st) (processed st))"
  by (simp add: save_state_def Let_def split_def)

lemma parse_stringify_state: "parse_state (Json (stringify_state st)) = Inr st"
  by (cases "cursor st") (simp_all add: parse_state_def state_of_json_def stringify_state_def)

lemma load_state_stored:
  "load_state w (Some (Json (stringify_state st))) = (Inr st, w)"
  by (simp add: load_state_def parse_stringify_state)

subsection \<open>Phase transitions\<close>

text \<open>
  C6. When the handler of the loaded checkpoint's phase reports completion, the invocation
  stores the checkpoint of the next phase in the fixed order, with a null cursor and a count
  of zero, and returns that phase; when the phase was the last one (contacts), it returns
  completion instead, the checkpoint is gone from the store and a completion record is
  stored.
\<close>

theorem completion_advances_phase:
  assumes "handler_report config w = Some (st, r)" and "complete r"
  shows "(phase st \<noteq> ''backup-contacts'' \<longrightarrow>
            fst (runIncrementalMaintenance config w) = Inr (Chunk (next_phase (phase st)) 0) \<and>
            stored (snd (runIncrementalMaintenance config w)) (stateKey config) =
              Some (Json (stringify_state
                (st\<lparr>phase := next_phase (phase st), cursor := Null, processed := 0\<rparr>))))
       \<and> (phase st = ''backup-contacts'' \<longrightarrow>
            fst (runIncrementalMaintenance config w) = Inr Complete \<and>
            stored (snd (runIncrementalMaintenance config w)) (stateKey config) = None \<and>
            (\<exists>d. stored (snd (runIncrementalMaintenance config w)) (lastCompleteKey config) =
               Some (Json (completion_record d (processed st)))))"
  using assms
  apply (simp add: handler_report_def runIncrementalMaintenance_def Let_def split_def
      split: prod.splits sum.splits if_splits)
  apply (auto simp: next_phase_def advance_def stored_save_state fst_save_state
      stored_console_log stored_KV_put stored_KV_delete stored_Date_now
      stateKey_neq_lastCompleteKey)
  done

theorem completion_advances_phase_witness:
  "handler_report cfg0 (world0 kv_contacts (\<lambda>n. 0)) =
     Some (\<lparr>phase = ''backup-contacts'', cursor = Null, processed = 3,
             startedAt = ''2024-01-01T00:00:00.000Z''\<rparr>,
           \<lparr>complete = True, res_cursor = Undefined, count = 1\<rparr>)
   \<and> fst (runIncrementalMaintenance cfg0 (world0 kv_contacts (\<lambda>n. 0))) = Inr Complete
   \<and> stored (snd (runIncrementalMaintenance cfg0 (world0 kv_contacts (\<lambda>n. 0)))) (stateKey cfg0)
       = None
   \<and> handler_report cfg0 (world0 [] (\<lambda>n. 0)) =
     Some (\<lparr>phase = ''cleanup'', cursor = Null, processed = 0,
             startedAt = ''2024-01-01T00:00:00.000Z''\<rparr>,
           \<lparr>complete = True, res_cursor = Undefined, count = 0\<rparr>)
   \<and> fst (runIncrementalMaintenance cfg0 (world0 [] (\<lambda>n. 0))) =
       Inr (Chunk ''backup-subscribers'' 0)"
proof -
  have h1: "handler_report cfg0 (world0 kv_contacts (\<lambda>n. 0)) =
     Some (\<lparr>phase = ''backup-contacts'', cursor = Null, processed = 3,
             startedAt = ''2024-01-01T00:00:00.000Z''\<rparr>,
           \<lparr>complete = True, res_cursor = Undefined, count = 1\<rparr>)"
    by code_simp
  have h2: "handler_report cfg0 (world0 [] (\<lambda>n. 0)) =
     Some (\<lparr>phase = ''cleanup'', cursor = Null, processed = 0,
             startedAt = ''2024-01-01T00:00:00.000Z''\<rparr>,
           \<lparr>complete = True, res_cursor = Undefined, count = 0\<rparr>)"
    by code_simp
  show ?thesis
    using completion_advances_phase [OF h1] completion_advances_phase [OF h2] h1 h2
    by (simp add: next_phase_def)
qed



subsection \<open>The trace of the calls on the namespace\<close>

lemma kv_ops_Date_now: "kv_ops (snd (Date_now w)) = kv_ops w"
  by (simp add: Date_now_def)

lemma kv_ops_console:
  "kv_ops (console_log m w) = kv_ops w"
  "kv_ops (console_warn m w) = kv_ops w"
  "kv_ops (console_error m w) = kv_ops w"
  "kv_ops (console_error_with m e w) = kv_ops w"
  by (simp_all add: console_log_def console_warn_def console_error_def console_error_with_def)

lemma kv_ops_KV:
  "kv_ops (snd (KV_get k w)) = kv_ops w @ [OpGet k]"
  "kv_ops (KV_put k v w) = kv_ops w @ [OpPut k v]"
  "kv_ops (KV_delete k w) = kv_ops w @ [OpDelete k]"
  "kv_ops (snd (KV_list pre limit cur w)) =
     kv_ops w @ [OpList pre limit cur (list_page (KV w) pre limit cur)]"
  by (simp_all add: KV_get_def KV_put_def KV_delete_def KV_list_def Let_def)

lemma kv_ops_createOrUpdateFile: "kv_ops (snd (createOrUpdateFile config u w)) = kv_ops w"
  by (simp add: createOrUpdateFile_def console_error_def)

lemma kv_ops_saveToGitHub: "kv_ops (saveToGitHub config f c w) = kv_ops w"
  by (simp add: saveToGitHub_def Let_def split_def kv_ops_console kv_ops_Date_now
      kv_ops_createOrUpdateFile)

lemma kv_ops_cleanup_entry:
  "\<not> P (OpGet name) \<Longrightarrow> \<not> P (OpDelete name) \<Longrightarrow>
   filter P (kv_ops (snd (cleanup_entry now maxAge name w))) = filter P (kv_ops w)"
  by (simp add: cleanup_entry_def cleanup_try_def Let_def split_def kv_ops_KV
      split: option.splits sum.splits)

lemma kv_ops_cleanup_keys:
  "\<forall>name \<in> set names. \<not> P (OpGet name) \<and> \<not> P (OpDelete name) \<Longrightarrow>
   filter P (kv_ops (snd (snd (cleanup_keys s m now a names n w)))) = filter P (kv_ops w)"
proof (induction names arbitrary: n w)
  case Nil
  then show ?case by simp
next
  case (Cons name rest)
  then show ?case
    by (simp add: Let_def split_def kv_ops_Date_now kv_ops_cleanup_entry)
qed

lemma keys_list_page_prefix: "k \<in> set (keys (list_page kv pre limit cur)) \<Longrightarrow> prefix pre k"
  by (auto simp: list_page_def Let_def dest!: in_set_takeD)


lemma fst_KV_list: "fst (KV_list pre limit cur w) = list_page (KV w) pre limit cur"
  by (simp add: KV_list_def Let_def)

lemma touches_cleanup_prefixes:
  "\<forall>(pre, a) \<in> set ps. \<not> prefix pre k \<Longrightarrow>
   filter (touches k) (kv_ops (snd (cleanup_prefixes cur s m now ps n w))) = filter (touches k) (kv_ops w)"
proof (induction ps arbitrary: n w)
  case Nil
  then show ?case by simp
next
  case (Cons p ps)
  obtain pre a where p: "p = (pre, a)" by (cases p)
  have keys: "\<And>w'. \<forall>name \<in> set (keys (fst (KV_list pre 5 cur w'))).
      \<not> touches k (OpGet name) \<and> \<not> touches k (OpDelete name)"
    using Cons.prems p by (auto simp: fst_KV_list dest: keys_list_page_prefix)
  show ?case
    using Cons p
    by (simp add: Let_def split_def kv_ops_Date_now kv_ops_KV kv_ops_cleanup_keys [OF keys])
qed

lemma touches_cleanupIncremental:
  "\<forall>(pre, a) \<in> set (prefixesToClean config). \<not> prefix pre k \<Longrightarrow>
   filter (touches k) (kv_ops (snd (cleanupIncremental config st m w))) = filter (touches k) (kv_ops w)"
  by (simp add: cleanupIncremental_def Let_def split_def touches_cleanup_prefixes kv_ops_Date_now)

lemma kv_ops_backup_entry:
  "\<not> P (OpGet name) \<Longrightarrow>
   filter P (kv_ops (snd (backup_entry a name w))) = filter P (kv_ops w)"
  by (simp add: backup_entry_def backup_try_def Let_def split_def kv_ops_KV
      split: option.splits sum.splits)

lemma kv_ops_backup_keys:
  "\<forall>name \<in> set names. \<not> P (OpGet name) \<Longrightarrow> \<forall>v. \<not> P (OpPut (csv_name a) v) \<Longrightarrow>
   filter P (kv_ops (snd (snd (snd (backup_keys a s m names csv n w))))) = filter P (kv_ops w)"
proof (induction names arbitrary: csv n w)
  case Nil
  then show ?case by simp
next
  case (Cons name rest)
  then show ?case
    by (simp add: Let_def split_def kv_ops_Date_now kv_ops_backup_entry kv_ops_KV
        split: option.splits)
qed

lemma touches_backupIncremental:
  assumes "\<not> prefix (source_prefix a) k" and "k \<noteq> csv_name a"
  shows "filter (touches k) (kv_ops (snd (backupIncremental config a st m w))) = filter (touches k) (kv_ops w)"
proof -
  have keys: "\<And>w'. \<forall>name \<in> set (keys (fst (KV_list (source_prefix a) 20 (cursor st) w'))).
      \<not> touches k (OpGet name)"
    using assms by (auto simp: fst_KV_list dest: keys_list_page_prefix)
  have put: "\<forall>v. \<not> touches k (OpPut (csv_name a) v)" using assms by simp
  show ?thesis
    using assms
    by (simp add: backupIncremental_def Let_def split_def kv_ops_Date_now kv_ops_KV
        kv_ops_saveToGitHub kv_ops_backup_keys [OF keys put])
qed

lemma kv_ops_save_state:
  "kv_ops (snd (save_state config t0 st w)) =
     kv_ops w @ [OpPut (stateKey config) (Json (stringify_state st))]"
  by (simp add: save_state_def Let_def split_def kv_ops_console kv_ops_Date_now kv_ops_KV)

lemma kv_ops_load_state: "kv_ops (snd (load_state w v)) = kv_ops w"
  by (simp add: load_state_def Let_def split_def kv_ops_Date_now split: option.splits)

lemma stateKey_neq_csv:
  "stateKey config \<noteq> csv_name (subscribers_archive config)"
  "stateKey config \<noteq> csv_name (contacts_archive config)"
  "stateKey config \<noteq> lastCompleteKey config"
  by (simp_all add: stateKey_def subscribers_archive_def contacts_archive_def lastCompleteKey_def)

lemma apart_handlers:
  assumes "checkpoint_apart config"
  shows "filter (touches (stateKey config)) (kv_ops (snd (cleanupIncremental config st m w)))
           = filter (touches (stateKey config)) (kv_ops w)"
    and "filter (touches (stateKey config)) (kv_ops (snd (backupSubscribersIncremental config st m w)))
           = filter (touches (stateKey config)) (kv_ops w)"
    and "filter (touches (stateKey config)) (kv_ops (snd (backupContactsIncremental config st m w)))
           = filter (touches (stateKey config)) (kv_ops w)"
proof -
  show "filter (touches (stateKey config)) (kv_ops (snd (cleanupIncremental config st m w)))
           = filter (touches (stateKey config)) (kv_ops w)"
    using assms by (intro touches_cleanupIncremental) (simp add: checkpoint_apart_def prefixesToClean_def)
  show "filter (touches (stateKey config)) (kv_ops (snd (backupSubscribersIncremental config st m w)))
           = filter (touches (stateKey config)) (kv_ops w)"
    unfolding backupSubscribersIncremental_def
    using assms stateKey_neq_csv(1)
    by (intro touches_backupIncremental) (simp_all add: checkpoint_apart_def subscribers_archive_def)
  show "filter (touches (stateKey config)) (kv_ops (snd (backupContactsIncremental config st m w)))
           = filter (touches (stateKey config)) (kv_ops w)"
    unfolding backupContactsIncremental_def
    using assms stateKey_neq_csv(2)
    by (intro touches_backupIncremental) (simp_all add: checkpoint_apart_def contacts_archive_def)
qed

lemma touches_run:
  assumes "checkpoint_apart config"
  shows "\<exists>tail. filter (touches (stateKey config)) (kv_ops (snd (runIncrementalMaintenance config w))) =
         filter (touches (stateKey config)) (kv_ops w) @ OpGet (stateKey config) # tail \<and>
           (case fst (runIncrementalMaintenance config w) of
              Inl e \<Rightarrow> tail = []
            | Inr Complete \<Rightarrow> tail = [OpDelete (stateKey config)]
            | Inr (Chunk p n) \<Rightarrow> (\<exists>v. tail = [OpPut (stateKey config) v]))"
  using stateKey_neq_csv(3) [of config, symmetric]
  by (simp add: runIncrementalMaintenance_def Let_def split_def
      kv_ops_save_state fst_save_state kv_ops_console kv_ops_Date_now kv_ops_KV
      apart_handlers [OF assms] kv_ops_load_state stateKey_neq_csv
      split: sum.splits)

lemma is_read_touches: "(touches k op \<and> is_read k op) = is_read k op"
  by (cases op) auto

lemma is_write_touches: "(touches k op \<and> is_write k op) = is_write k op"
  by (cases op) auto

text \<open>
  C7. When no enumerated partition holds the checkpoint's key, an invocation (on a stored
  checkpoint that is inside the model) reads the checkpoint once and writes it at most once:
  its trace gains one get of the key, and then nothing (the invocation raised), one delete
  (the cycle completed) or one put (the cycle continues).
\<close>

theorem one_read_at_most_one_write:
  assumes "checkpoint_apart config"
      and "fst (runIncrementalMaintenance config w) \<noteq> Inl Unmodelled"
  shows "reads (stateKey config) (kv_ops (snd (runIncrementalMaintenance config w))) =
           reads (stateKey config) (kv_ops w) + 1
       \<and> writes (stateKey config) (kv_ops (snd (runIncrementalMaintenance config w))) \<le>
           writes (stateKey config) (kv_ops w) + 1
       \<and> (fst (runIncrementalMaintenance config w) = Inr Complete \<longrightarrow>
            filter (is_write (stateKey config)) (kv_ops (snd (runIncrementalMaintenance config w))) =
            filter (is_write (stateKey config)) (kv_ops w) @ [OpDelete (stateKey config)])
       \<and> (\<forall>p n. fst (runIncrementalMaintenance config w) = Inr (Chunk p n) \<longrightarrow>
            (\<exists>v. filter (is_write (stateKey config)) (kv_ops (snd (runIncrementalMaintenance config w))) =
            filter (is_write (stateKey config)) (kv_ops w) @ [OpPut (stateKey config) v]))"
proof -
  let ?K = "stateKey config"
  let ?w' = "snd (runIncrementalMaintenance config w)"
  obtain tail where
    ops: "filter (touches ?K) (kv_ops ?w') = filter (touches ?K) (kv_ops w) @ OpGet ?K # tail"
    and tail: "case fst (runIncrementalMaintenance config w) of
              Inl e \<Rightarrow> tail = []
            | Inr Complete \<Rightarrow> tail = [OpDelete ?K]
            | Inr (Chunk p n) \<Rightarrow> (\<exists>v. tail = [OpPut ?K v])"
    using touches_run [OF assms(1), of w] by blast
  have r: "filter (is_read ?K) (kv_ops ?w') = filter (is_read ?K) (kv_ops w) @ OpGet ?K # filter (is_read ?K) tail"
    using arg_cong [OF ops, of "filter (is_read ?K)"] by (simp add: is_read_touches)
  have wr: "filter (is_write ?K) (kv_ops ?w') = filter (is_write ?K) (kv_ops w) @ filter (is_write ?K) tail"
    using arg_cong [OF ops, of "filter (is_write ?K)"] by (simp add: is_write_touches)
  have len: "filter (is_read ?K) tail = [] \<and> length (filter (is_write ?K) tail) \<le> 1"
    using tail by (auto split: sum.splits maint_result.splits)
  show ?thesis
    using r wr len tail by (auto simp: reads_def writes_def)
qed

theorem one_read_at_most_one_write_witness:
  "checkpoint_apart cfg0
   \<and> fst (runIncrementalMaintenance cfg0 (world0 kv_contacts (\<lambda>n. 0))) \<noteq> Inl Unmodelled
   \<and> fst (runIncrementalMaintenance cfg0 (world0 [] (\<lambda>n. 0))) \<noteq> Inl Unmodelled
   \<and> reads (stateKey cfg0)
         (kv_ops (snd (runIncrementalMaintenance cfg0 (world0 kv_contacts (\<lambda>n. 0))))) = 1
   \<and> filter (is_write (stateKey cfg0))
         (kv_ops (snd (runIncrementalMaintenance cfg0 (world0 kv_contacts (\<lambda>n. 0))))) =
       [OpDelete (stateKey cfg0)]
   \<and> (\<exists>v. filter (is_write (stateKey cfg0))
         (kv_ops (snd (runIncrementalMaintenance cfg0 (world0 [] (\<lambda>n. 0))))) =
       [OpPut (stateKey cfg0) v])"
proof -
  have a: "checkpoint_apart cfg0"
    by code_simp
  have c: "fst (runIncrementalMaintenance cfg0 (world0 kv_contacts (\<lambda>n. 0))) = Inr Complete"
    by code_simp
  have d: "fst (runIncrementalMaintenance cfg0 (world0 [] (\<lambda>n. 0))) =
      Inr (Chunk ''backup-subscribers'' 0)"
    by code_simp
  have e: "kv_ops (world0 kv (\<lambda>n. 0)) = []" for kv
    by (simp add: world0_def)
  have c': "fst (runIncrementalMaintenance cfg0 (world0 kv_contacts (\<lambda>n. 0))) \<noteq> Inl Unmodelled"
    using c by simp
  have d': "fst (runIncrementalMaintenance cfg0 (world0 [] (\<lambda>n. 0))) \<noteq> Inl Unmodelled"
    using d by simp
  show ?thesis
    using one_read_at_most_one_write [OF a c'] one_read_at_most_one_write [OF a d'] a c d e
    by (simp add: reads_def)
qed

subsection \<open>The sweep-and-delete handler\<close>

text \<open>
  C3 at a concrete input. The rate-limit partition holds six expired records, so the first
  invocation of the cycle deletes a page of five and stores the token of that page as the
  checkpoint's cursor. The second invocation lists every partition from that token: the
  rate-limit listing returns the sixth record and ends, the listings of the two other
  partitions are asked for the keys after a rate-limit key and return nothing. The handler
  reports completion although the enumeration of these two partitions never returned their
  keys: listed from the start, each still has a key, and its record is expired.
\<close>

theorem resumed_sweep_complete_partitions_unlisted:
  "KV (snd (runIncrementalMaintenance cfg0 (world0 kv_sweep (\<lambda>n. 1000000000)))) = kv_resumed
   \<and> stored (world0 kv_resumed (\<lambda>n. 1000000000)) (stateKey cfg0) =
       Some (Json (stringify_state state_resumed))
   \<and> fst (cleanupIncremental cfg0 state_resumed 8 (world0 kv_resumed (\<lambda>n. 1000000000))) =
       \<lparr>complete = True, res_cursor = Undefined, count = 1\<rparr>
   \<and> filter is_list
        (kv_ops (snd (cleanupIncremental cfg0 state_resumed 8
           (world0 kv_resumed (\<lambda>n. 1000000000))))) =
       [OpList ''ratelimit:'' 5 (Cursor ''ratelimit:10.0.0.5'')
          \<lparr>keys = [''ratelimit:10.0.0.6''], list_complete = True, list_cursor = None\<rparr>,
        OpList ''bot-detect:'' 5 (Cursor ''ratelimit:10.0.0.5'')
          \<lparr>keys = [], list_complete = True, list_cursor = None\<rparr>,
        OpList ''captcha:'' 5 (Cursor ''ratelimit:10.0.0.5'')
          \<lparr>keys = [], list_complete = True, list_cursor = None\<rparr>]
   \<and> keys (list_page
        (KV (snd (cleanupIncremental cfg0 state_resumed 8 (world0 kv_resumed (\<lambda>n. 1000000000)))))
        ''bot-detect:'' 5 Null) = [''bot-detect:10.0.0.9'']
   \<and> keys (list_page
        (KV (snd (cleanupIncremental cfg0 state_resumed 8 (world0 kv_resumed (\<lambda>n. 1000000000)))))
        ''captcha:'' 5 Null) = [''captcha:10.0.0.9'']
   \<and> record_expired
        (snd (cleanupIncremental cfg0 state_resumed 8 (world0 kv_resumed (\<lambda>n. 1000000000))))
        1000000000 (7 * 24 * 60 * 60 * 1000) ''bot-detect:10.0.0.9''
   \<and> record_expired
        (snd (cleanupIncremental cfg0 state_resumed 8 (world0 kv_resumed (\<lambda>n. 1000000000))))
        1000000000 (60 * 60 * 1000) ''captcha:10.0.0.9''"
  by code_simp





subsection \<open>Frame properties of the primitive operations\<close>

lemma Date_now_frame:
  "fst (Date_now w) = clock w (ticks w)"
  "KV (snd (Date_now w)) = KV w"
  "clock (snd (Date_now w)) = clock w"
  "ticks (snd (Date_now w)) = Suc (ticks w)"
  "console (snd (Date_now w)) = console w"
  "github (snd (Date_now w)) = github w"
  "github_accepts (snd (Date_now w)) = github_accepts w"
  "Date_toISOString (snd (Date_now w)) = Date_toISOString w"
  "Date_toLocaleString (snd (Date_now w)) = Date_toLocaleString w"
  "Date_getTime (snd (Date_now w)) = Date_getTime w"
  "JSON_text (snd (Date_now w)) = JSON_text w"
  by (simp_all add: Date_now_def)

lemma console_log_frame:
  "KV (console_log m w) = KV w"
  "clock (console_log m w) = clock w"
  "ticks (console_log m w) = ticks w"
  "console (console_log m w) = console w @ [Log m]"
  "github (console_log m w) = github w"
  "github_accepts (console_log m w) = github_accepts w"
  "Date_toISOString (console_log m w) = Date_toISOString w"
  "Date_toLocaleString (console_log m w) = Date_toLocaleString w"
  "Date_getTime (console_log m w) = Date_getTime w"
  "JSON_text (console_log m w) = JSON_text w"
  by (simp_all add: console_log_def)

lemma console_warn_frame:
  "KV (console_warn m w) = KV w"
  "clock (console_warn m w) = clock w"
  "ticks (console_warn m w) = ticks w"
  "console (console_warn m w) = console w @ [Warn m]"
  "github (console_warn m w) = github w"
  "github_accepts (console_warn m w) = github_accepts w"
  "Date_toISOString (console_warn m w) = Date_toISOString w"
  "Date_toLocaleString (console_warn m w) = Date_toLocaleString w"
  "Date_getTime (console_warn m w) = Date_getTime w"
  "JSON_text (console_warn m w) = JSON_text w"
  by (simp_all add: console_warn_def)

lemma console_error_frame:
  "KV (console_error m w) = KV w"
  "clock (console_error m w) = clock w"
  "ticks (console_error m w) = ticks w"
  "console (console_error m w) = console w @ [Error m]"
  "github (console_error m w) = github w"
  "github_accepts (console_error m w) = github_accepts w"
  "Date_toISOString (console_error m w) = Date_toISOString w"
  "Date_toLocaleString (console_error m w) = Date_toLocaleString w"
  "Date_getTime (console_error m w) = Date_getTime w"
  "JSON_text (console_error m w) = JSON_text w"
  by (simp_all add: console_error_def)

lemma KV_get_frame:
  "KV (snd (KV_get k w)) = KV w"
  "clock (snd (KV_get k w)) = clock w"
  "ticks (snd (KV_get k w)) = ticks w"
  "console (snd (KV_get k w)) = console w"
  "github (snd (KV_get k w)) = github w"
  "github_accepts (snd (KV_get k w)) = github_accepts w"
  "Date_toISOString (snd (KV_get k w)) = Date_toISOString w"
  "Date_toLocaleString (snd (KV_get k w)) = Date_toLocaleString w"
  "Date_getTime (snd (KV_get k w)) = Date_getTime w"
  "JSON_text (snd (KV_get k w)) = JSON_text w"
  by (simp_all add: KV_get_def)

lemma KV_put_frame:
  "KV (KV_put k v w) = (k, v) # filter (\<lambda>e. fst e \<noteq> k) (KV w)"
  "clock (KV_put k v w) = clock w"
  "ticks (KV_put k v w) = ticks w"
  "console (KV_put k v w) = console w"
  "github (KV_put k v w) = github w"
  "github_accepts (KV_put k v w) = github_accepts w"
  "Date_toISOString (KV_put k v w) = Date_toISOString w"
  "Date_toLocaleString (KV_put k v w) = Date_toLocaleString w"
  "Date_getTime (KV_put k v w) = Date_getTime w"
  "JSON_text (KV_put k v w) = JSON_text w"
  by (simp_all add: KV_put_def)

lemma KV_delete_frame:
  "KV (KV_delete k w) = filter (\<lambda>e. fst e \<noteq> k) (KV w)"
  "clock (KV_delete k w) = clock w"
  "ticks (KV_delete k w) = ticks w"
  "console (KV_delete k w) = console w"
  "github (KV_delete k w) = github w"
  "github_accepts (KV_delete k w) = github_accepts w"
  "Date_toISOString (KV_delete k w) = Date_toISOString w"
  "Date_toLocaleString (KV_delete k w) = Date_toLocaleString w"
  "Date_getTime (KV_delete k w) = Date_getTime w"
  "JSON_text (KV_delete k w) = JSON_text w"
  by (simp_all add: KV_delete_def)

lemma KV_list_frame:
  "KV (snd (KV_list p l c w)) = KV w"
  "clock (snd (KV_list p l c w)) = clock w"
  "ticks (snd (KV_list p l c w)) = ticks w"
  "console (snd (KV_list p l c w)) = console w"
  "github (snd (KV_list p l c w)) = github w"
  "github_accepts (snd (KV_list p l c w)) = github_accepts w"
  "Date_toISOString (snd (KV_list p l c w)) = Date_toISOString w"
  "Date_toLocaleString (snd (KV_list p l c w)) = Date_toLocaleString w"
  "Date_getTime (snd (KV_list p l c w)) = Date_getTime w"
  "JSON_text (snd (KV_list p l c w)) = JSON_text w"
  by (simp_all add: KV_list_def Let_def)

lemmas frame = Date_now_frame console_log_frame console_warn_frame console_error_frame
  KV_get_frame KV_put_frame KV_delete_frame KV_list_frame fst_KV_get fst_KV_list

lemma csv_text_cong: "JSON_text w' = JSON_text w \<Longrightarrow> csv_text w' = csv_text w"
  by (simp add: csv_text_def fun_eq_iff split: kvalue.splits)

lemma backup_entry_frame:
  "KV (snd (backup_entry a name w)) = KV w"
  "clock (snd (backup_entry a name w)) = clock w"
  "ticks (snd (backup_entry a name w)) = ticks w"
  "console (snd (backup_entry a name w)) = console w"
  "github (snd (backup_entry a name w)) = github w"
  "github_accepts (snd (backup_entry a name w)) = github_accepts w"
  "Date_toISOString (snd (backup_entry a name w)) = Date_toISOString w"
  "Date_toLocaleString (snd (backup_entry a name w)) = Date_toLocaleString w"
  "Date_getTime (snd (backup_entry a name w)) = Date_getTime w"
  "JSON_text (snd (backup_entry a name w)) = JSON_text w"
  by (simp_all add: backup_entry_def backup_try_def Let_def split_def frame
      split: option.splits sum.splits)

lemma backup_keys_frame:
  "console (snd (snd (snd (backup_keys a s m names csv n w)))) = console w \<and>
   github (snd (snd (snd (backup_keys a s m names csv n w)))) = github w \<and>
   github_accepts (snd (snd (snd (backup_keys a s m names csv n w)))) = github_accepts w \<and>
   clock (snd (snd (snd (backup_keys a s m names csv n w)))) = clock w \<and>
   Date_toISOString (snd (snd (snd (backup_keys a s m names csv n w)))) = Date_toISOString w \<and>
   Date_toLocaleString (snd (snd (snd (backup_keys a s m names csv n w)))) = Date_toLocaleString w \<and>
   JSON_text (snd (snd (snd (backup_keys a s m names csv n w)))) = JSON_text w"
proof (induction names arbitrary: csv n w)
  case Nil
  then show ?case by simp
next
  case (Cons name rest)
  then show ?case
    by (simp add: Let_def split_def backup_entry_frame frame split: option.splits)
qed

subsection \<open>Flushing the buffer\<close>

lemma empty_page_flush:
  assumes "keys (list_page (KV w) (source_prefix a) 20 (cursor st)) = []"
   and "stored w (csv_name a) = Some (Text buf)" and "flush_above a < length buf"
  shows "flushed config a w buf (backupIncremental config a st m w)"
proof -
  from assms(3) have ne: "buf \<noteq> []" by auto
  let ?w3 = "snd (KV_list (source_prefix a) 20 (cursor st)
                (snd (KV_get (csv_name a) (snd (Date_now w)))))"
  have run: "backupIncremental config a st m w =
      (\<lparr>complete = True, res_cursor = Undefined, count = 0\<rparr>,
       KV_delete (csv_name a) (saveToGitHub config (filename a) buf ?w3))"
    using assms ne
    by (simp add: backupIncremental_def Let_def split_def frame csv_or_header_def csv_text_def
        stored_Date_now)
  have gone: "stored (KV_delete (csv_name a) (saveToGitHub config (filename a) buf ?w3))
      (csv_name a) = None"
    by (simp add: stored_KV_delete)
  have commit: "\<exists>msg. github (KV_delete (csv_name a) (saveToGitHub config (filename a) buf ?w3)) =
      github w @
        [\<lparr>repo = GITHUB_BACKUP_REPO config, branch = GITHUB_BACKUP_BRANCH config,
          path = backup_path w (clock w (Suc (ticks w))) (filename a),
          content = buf, message = msg\<rparr>]"
    if "usable config w"
    using that
    by (simp add: usable_def saveToGitHub_def createOrUpdateFile_def Let_def split_def frame
        backup_path_def iso_date_def)
  show ?thesis
    unfolding flushed_def run using gone commit by simp
qed

text \<open>
  C8. When the page fetched is empty and the stored buffer holds the header and at least one
  row, either archive builder flushes the buffer: it commits the buffer under
  \<open>backups/<date>-<file name>\<close> (GitHub being usable), deletes the buffer and reports
  completion with a count of zero.
\<close>

theorem empty_page_flushes_buffer:
  "(stored w (csv_name (subscribers_archive config)) =
      Some (Text (header (subscribers_archive config) @ csv_row [e, i, t] @ rest)) \<and>
    keys (list_page (KV w) (PREFIX_SUBSCRIBER config) 20 (cursor st)) = [] \<longrightarrow>
    flushed config (subscribers_archive config) w
      (header (subscribers_archive config) @ csv_row [e, i, t] @ rest)
      (backupSubscribersIncremental config st maxTime w))
   \<and> (stored w (csv_name (contacts_archive config)) =
      Some (Text (header (contacts_archive config) @ csv_row [ce, cn, cp, cm, cs, ci, ct] @ rest)) \<and>
    keys (list_page (KV w) (PREFIX_CONTACT config) 20 (cursor st)) = [] \<longrightarrow>
    flushed config (contacts_archive config) w
      (header (contacts_archive config) @ csv_row [ce, cn, cp, cm, cs, ci, ct] @ rest)
      (backupContactsIncremental config st maxTime w))"
proof (intro conjI impI)
  assume h: "stored w (csv_name (subscribers_archive config)) =
            Some (Text (header (subscribers_archive config) @ csv_row [e, i, t] @ rest)) \<and>
          keys (list_page (KV w) (PREFIX_SUBSCRIBER config) 20 (cursor st)) = []"
  have len: "flush_above (subscribers_archive config) <
      length (header (subscribers_archive config) @ csv_row [e, i, t] @ rest)"
    by (simp add: subscribers_archive_def csv_row_def quoted_def)
  show "flushed config (subscribers_archive config) w
            (header (subscribers_archive config) @ csv_row [e, i, t] @ rest)
            (backupSubscribersIncremental config st maxTime w)"
    unfolding backupSubscribersIncremental_def
    using h len by (intro empty_page_flush) (simp_all add: subscribers_archive_def)
next
  assume h: "stored w (csv_name (contacts_archive config)) =
            Some (Text (header (contacts_archive config) @ csv_row [ce, cn, cp, cm, cs, ci, ct] @ rest)) \<and>
          keys (list_page (KV w) (PREFIX_CONTACT config) 20 (cursor st)) = []"
  have len: "flush_above (contacts_archive config) <
      length (header (contacts_archive config) @ csv_row [ce, cn, cp, cm, cs, ci, ct] @ rest)"
    by (simp add: contacts_archive_def)
  show "flushed config (contacts_archive config) w
            (header (contacts_archive config) @ csv_row [ce, cn, cp, cm, cs, ci, ct] @ rest)
            (backupContactsIncremental config st maxTime w)"
    unfolding backupContactsIncremental_def
    using h len by (intro empty_page_flush) (simp_all add: contacts_archive_def)
qed

theorem empty_page_flushes_buffer_witness:
  "usable cfg0 (world0 kv_buffered (\<lambda>n. 0))
   \<and> stored (world0 kv_buffered (\<lambda>n. 0)) (csv_name (subscribers_archive cfg0)) =
       Some (Text (header (subscribers_archive cfg0) @ row_ann @ []))
   \<and> keys (list_page (KV (world0 kv_buffered (\<lambda>n. 0))) (PREFIX_SUBSCRIBER cfg0) 20
              (cursor state_subscribers)) = []
   \<and> flushed cfg0 (subscribers_archive cfg0) (world0 kv_buffered (\<lambda>n. 0))
        (header (subscribers_archive cfg0) @ row_ann @ [])
        (backupSubscribersIncremental cfg0 state_subscribers 8 (world0 kv_buffered (\<lambda>n. 0)))
   \<and> map path (github (snd (backupSubscribersIncremental cfg0 state_subscribers 8
                                (world0 kv_buffered (\<lambda>n. 0))))) =
       [''backups/2024-01-01-subscribers-backup.csv'']
   \<and> stored (world0 kv_buffered (\<lambda>n. 0)) (csv_name (contacts_archive cfg0)) =
       Some (Text (header (contacts_archive cfg0)
                   @ csv_row [''ann@example.org'', ''Ann'', ''555'', ''hello'', ''true'',
                              ''10.0.0.1'', ''2024-01-01''] @ []))
   \<and> keys (list_page (KV (world0 kv_buffered (\<lambda>n. 0))) (PREFIX_CONTACT cfg0) 20
              (cursor state_subscribers)) = []
   \<and> flushed cfg0 (contacts_archive cfg0) (world0 kv_buffered (\<lambda>n. 0))
        (header (contacts_archive cfg0)
           @ csv_row [''ann@example.org'', ''Ann'', ''555'', ''hello'', ''true'',
                      ''10.0.0.1'', ''2024-01-01''] @ [])
        (backupContactsIncremental cfg0 state_subscribers 8 (world0 kv_buffered (\<lambda>n. 0)))"
proof -
  have a: "usable cfg0 (world0 kv_buffered (\<lambda>n. 0))"
    by (simp add: usable_def cfg0_def world0_def)
  have c: "stored (world0 kv_buffered (\<lambda>n. 0)) (csv_name (subscribers_archive cfg0)) =
       Some (Text (header (subscribers_archive cfg0)
                   @ csv_row [''ann@example.org'', ''10.0.0.1'', ''2024-01-01''] @ []))"
    by code_simp
  have d: "keys (list_page (KV (world0 kv_buffered (\<lambda>n. 0))) (PREFIX_SUBSCRIBER cfg0) 20
              (cursor state_subscribers)) = []"
    by code_simp
  have e: "stored (world0 kv_buffered (\<lambda>n. 0)) (csv_name (contacts_archive cfg0)) =
       Some (Text (header (contacts_archive cfg0)
                   @ csv_row [''ann@example.org'', ''Ann'', ''555'', ''hello'', ''true'',
                              ''10.0.0.1'', ''2024-01-01''] @ []))"
    by code_simp
  have f: "keys (list_page (KV (world0 kv_buffered (\<lambda>n. 0))) (PREFIX_CONTACT cfg0) 20
              (cursor state_subscribers)) = []"
    by code_simp
  have g: "map path (github (snd (backupSubscribersIncremental cfg0 state_subscribers 8
                                (world0 kv_buffered (\<lambda>n. 0))))) =
       [''backups/2024-01-01-subscribers-backup.csv'']"
    by code_simp
  show ?thesis
    using empty_page_flushes_buffer [where e = "''ann@example.org''"
        and i = "''10.0.0.1''" and t = "''2024-01-01''" and rest = "[]"
        and st = state_subscribers and ce = "''ann@example.org''" and cn = "''Ann''"
        and cp = "''555''" and cm = "''hello''" and cs = "''true''"
        and ci = "''10.0.0.1''" and ct = "''2024-01-01''" and maxTime = 8
        and config = cfg0 and w = "world0 kv_buffered (\<lambda>n. 0)"] a c d e f g
    by (simp add: row_ann_def)
qed

subsection \<open>A missing token\<close>

lemma saveToGitHub_no_token:
  "\<not> configured (GITHUB_TOKEN config) \<Longrightarrow>
   saveToGitHub config f c w = console_warn ''GitHub token not configured, skipping backup'' w"
  by (simp add: saveToGitHub_def)

lemma long_csv_truthy: "n < length (csv_text w v) \<Longrightarrow> truthy_value v"
  by (cases v) (auto simp: csv_text_def)

lemma no_token_backupIncremental:
  assumes "\<not> configured (GITHUB_TOKEN config)"
  shows "github (snd (backupIncremental config a st m w)) = github w"
    and "flush_due a st w (fst (backupIncremental config a st m w)) \<Longrightarrow>
         skipped_and_dropped a w (snd (backupIncremental config a st m w))"
proof -
  show "github (snd (backupIncremental config a st m w)) = github w"
    using assms
    by (simp add: backupIncremental_def Let_def split_def saveToGitHub_no_token
        backup_keys_frame frame)
  assume "flush_due a st w (fst (backupIncremental config a st m w))"
  then show "skipped_and_dropped a w (snd (backupIncremental config a st m w))"
    using assms
    by (simp add: flush_due_def skipped_and_dropped_def backupIncremental_def Let_def split_def
        saveToGitHub_no_token backup_keys_frame frame stored_KV_delete
        csv_text_cong [of "snd (KV_list p l c w')" for p l c w'] stored_def
        map_of_filter_same long_csv_truthy
        split: if_splits)
qed

text \<open>
  C2, as the code has it. Without a configured token neither archive builder writes to
  GitHub; and whenever a flush is due, the flush is skipped with the warning and the buffer
  is deleted from the store all the same: it is not retained for a later flush.
\<close>

theorem missing_token_skips_and_drops:
  assumes "\<not> configured (GITHUB_TOKEN config)"
  shows "github (snd (backupSubscribersIncremental config st m w)) = github w
       \<and> (flush_due (subscribers_archive config) st w
            (fst (backupSubscribersIncremental config st m w)) \<longrightarrow>
          skipped_and_dropped (subscribers_archive config) w
            (snd (backupSubscribersIncremental config st m w)))
       \<and> github (snd (backupContactsIncremental config st m w)) = github w
       \<and> (flush_due (contacts_archive config) st w
            (fst (backupContactsIncremental config st m w)) \<longrightarrow>
          skipped_and_dropped (contacts_archive config) w
            (snd (backupContactsIncremental config st m w)))"
  unfolding backupSubscribersIncremental_def backupContactsIncremental_def
  using no_token_backupIncremental [OF assms] by blast

theorem missing_token_skips_and_drops_witness:
  "\<not> configured (GITHUB_TOKEN cfg_no_token)
   \<and> flush_due (subscribers_archive cfg_no_token) state_subscribers
        (world0 kv_one_subscriber (\<lambda>n. 0))
        (fst (backupSubscribersIncremental cfg_no_token state_subscribers 8
               (world0 kv_one_subscriber (\<lambda>n. 0))))
   \<and> skipped_and_dropped (subscribers_archive cfg_no_token) (world0 kv_one_subscriber (\<lambda>n. 0))
        (snd (backupSubscribersIncremental cfg_no_token state_subscribers 8
               (world0 kv_one_subscriber (\<lambda>n. 0))))
   \<and> flush_due (contacts_archive cfg_no_token) state_subscribers
        (world0 kv_buffered (\<lambda>n. 0))
        (fst (backupContactsIncremental cfg_no_token state_subscribers 8
               (world0 kv_buffered (\<lambda>n. 0))))
   \<and> skipped_and_dropped (contacts_archive cfg_no_token) (world0 kv_buffered (\<lambda>n. 0))
        (snd (backupContactsIncremental cfg_no_token state_subscribers 8
               (world0 kv_buffered (\<lambda>n. 0))))"
proof -
  have a: "\<not> configured (GITHUB_TOKEN cfg_no_token)"
    by code_simp
  have b: "flush_due (subscribers_archive cfg_no_token) state_subscribers
        (world0 kv_one_subscriber (\<lambda>n. 0))
        (fst (backupSubscribersIncremental cfg_no_token state_subscribers 8
               (world0 kv_one_subscriber (\<lambda>n. 0))))"
    by code_simp
  have c: "flush_due (contacts_archive cfg_no_token) state_subscribers
        (world0 kv_buffered (\<lambda>n. 0))
        (fst (backupContactsIncremental cfg_no_token state_subscribers 8
               (world0 kv_buffered (\<lambda>n. 0))))"
    by code_simp
  show ?thesis
    using missing_token_skips_and_drops [OF a, of state_subscribers 8 "world0 kv_one_subscriber (\<lambda>n. 0)"]
      missing_token_skips_and_drops [OF a, of state_subscribers 8 "world0 kv_buffered (\<lambda>n. 0)"]
      a b c
    by simp
qed

text \<open>
  C2 as stated fails: with no token and one subscriber, the invocation that ends the
  subscribers phase prints the warning, commits nothing, and leaves no buffer in the store.
\<close>

theorem missing_token_buffer_lost:
  "\<not> configured (GITHUB_TOKEN cfg_no_token)
   \<and> fst (runIncrementalMaintenance cfg_no_token (world0 kv_one_subscriber (\<lambda>n. 0))) =
       Inr (Chunk ''backup-contacts'' 0)
   \<and> console (snd (runIncrementalMaintenance cfg_no_token (world0 kv_one_subscriber (\<lambda>n. 0)))) =
       [Log ''Incremental maintenance: Phase backup-subscribers, Processed 0'',
        Warn ''GitHub token not configured, skipping backup'',
        Log ''Incremental maintenance chunk completed in 0ms'']
   \<and> stored (snd (runIncrementalMaintenance cfg_no_token (world0 kv_one_subscriber (\<lambda>n. 0))))
        (csv_name (subscribers_archive cfg_no_token)) = None
   \<and> github (snd (runIncrementalMaintenance cfg_no_token (world0 kv_one_subscriber (\<lambda>n. 0)))) = []"
  by code_simp

subsection \<open>The order of the phases\<close>

lemma active_phase_stored:
  "stored w (stateKey config) = Some (Json (stringify_state st)) \<Longrightarrow>
   active_phase config w = Some (phase st)"
  "stored w (stateKey config) = None \<Longrightarrow> active_phase config w = Some ''cleanup''"
  by (simp_all add: active_phase_def load_state_stored)
     (simp add: load_state_def split_def Let_def)

lemma checkpoint_okI:
  "stored w (stateKey config) = Some (Json (stringify_state st)) \<Longrightarrow> phase st \<in> phases \<Longrightarrow>
   checkpoint_ok config w"
  by (auto simp: checkpoint_ok_def)

lemma phase_advance:
  "phase (advance nxt st r) = (if complete r then nxt else phase st)"
  by (simp add: advance_def)

lemma run_loaded:
  assumes "load_state (snd (KV_get (stateKey config) (snd (Date_now w))))
             (stored w (stateKey config)) = (Inr st, w3)"
      and "phase st \<in> phases"
  shows "\<exists>r. handler_report config w = Some (st, r) \<and>
      active_phase config (snd (runIncrementalMaintenance config w)) =
        Some (if complete r then next_phase (phase st) else phase st) \<and>
      (stored (snd (runIncrementalMaintenance config w)) (stateKey config) = None) =
        (phase st = ''backup-contacts'' \<and> complete r) \<and>
      checkpoint_ok config (snd (runIncrementalMaintenance config w))"
proof -
  have fg: "fst (KV_get (stateKey config) (snd (Date_now w))) = stored w (stateKey config)"
    by (simp add: fst_KV_get stored_Date_now)
  consider "phase st = ''cleanup''" | "phase st = ''backup-subscribers''"
    | "phase st = ''backup-contacts''"
    using assms(2) by (auto simp: phases_def)
  then show ?thesis
  proof cases
    case 1
    let ?r = "fst (cleanupIncremental config st
        (MAX_EXECUTION_TIME - (fst (Date_now (console_log (phase_line st) w3)) - fst (Date_now w)))
        (snd (Date_now (console_log (phase_line st) w3))))"
    have hr: "handler_report config w = Some (st, ?r)"
      using assms 1 by (simp add: handler_report_def Let_def split_def fg)
    have st': "stored (snd (runIncrementalMaintenance config w)) (stateKey config) =
        Some (Json (stringify_state (advance ''backup-subscribers'' st ?r)))"
      using assms 1
      by (simp add: runIncrementalMaintenance_def Let_def split_def fg stored_save_state)
    have "phase (advance ''backup-subscribers'' st ?r) \<in> phases"
      using 1 by (simp add: phase_advance phases_def)
    from checkpoint_okI [OF st' this] show ?thesis
      using hr st' 1 active_phase_stored(1) [OF st']
      by (auto simp: phase_advance next_phase_def)
  next
    case 2
    let ?r = "fst (backupSubscribersIncremental config st
        (MAX_EXECUTION_TIME - (fst (Date_now (console_log (phase_line st) w3)) - fst (Date_now w)))
        (snd (Date_now (console_log (phase_line st) w3))))"
    have hr: "handler_report config w = Some (st, ?r)"
      using assms 2 by (simp add: handler_report_def Let_def split_def fg)
    have st': "stored (snd (runIncrementalMaintenance config w)) (stateKey config) =
        Some (Json (stringify_state (advance ''backup-contacts'' st ?r)))"
      using assms 2
      by (simp add: runIncrementalMaintenance_def Let_def split_def fg stored_save_state)
    have "phase (advance ''backup-contacts'' st ?r) \<in> phases"
      using 2 by (simp add: phase_advance phases_def)
    from checkpoint_okI [OF st' this] show ?thesis
      using hr st' 2 active_phase_stored(1) [OF st']
      by (auto simp: phase_advance next_phase_def)
  next
    case 3
    let ?r = "fst (backupContactsIncremental config st
        (MAX_EXECUTION_TIME - (fst (Date_now (console_log (phase_line st) w3)) - fst (Date_now w)))
        (snd (Date_now (console_log (phase_line st) w3))))"
    have hr: "handler_report config w = Some (st, ?r)"
      using assms 3 by (simp add: handler_report_def Let_def split_def fg)
    show ?thesis
    proof (cases "complete ?r")
      case True
      have st': "stored (snd (runIncrementalMaintenance config w)) (stateKey config) = None"
        using assms 3 True stateKey_neq_lastCompleteKey [of config]
        by (simp add: runIncrementalMaintenance_def Let_def split_def fg stored_console_log
            stored_KV_put stored_Date_now stored_KV_delete)
      show ?thesis
        using hr st' 3 True active_phase_stored(2) [OF st']
        by (auto simp: next_phase_def checkpoint_ok_def)
    next
      case False
      have st': "stored (snd (runIncrementalMaintenance config w)) (stateKey config) =
          Some (Json (stringify_state (advance ''backup-contacts'' st ?r)))"
        using assms 3 False
        by (simp add: runIncrementalMaintenance_def Let_def split_def fg stored_save_state)
      have "phase (advance ''backup-contacts'' st ?r) \<in> phases"
        using 3 by (simp add: phase_advance phases_def)
      from checkpoint_okI [OF st' this] show ?thesis
        using hr st' 3 False active_phase_stored(1) [OF st']
        by (auto simp: phase_advance next_phase_def)
    qed
  qed
qed

lemma run_ok:
  assumes "checkpoint_ok config w"
  shows "\<exists>st r. in_order config w st r \<and>
           checkpoint_ok config (snd (runIncrementalMaintenance config w))"
proof -
  from assms consider "stored w (stateKey config) = None"
    | st where "stored w (stateKey config) = Some (Json (stringify_state st))" "phase st \<in> phases"
    by (auto simp: checkpoint_ok_def)
  then show ?thesis
  proof cases
    case 1
    let ?w2 = "snd (KV_get (stateKey config) (snd (Date_now w)))"
    let ?st = "\<lparr>phase = ''cleanup'', cursor = Null, processed = 0,
                startedAt = Date_toISOString ?w2 (fst (Date_now ?w2))\<rparr>"
    have l: "load_state ?w2 (stored w (stateKey config)) = (Inr ?st, snd (Date_now ?w2))"
      using 1 by (simp add: load_state_def split_def Let_def)
    have p: "phase ?st \<in> phases" by (simp add: phases_def)
    from run_loaded [OF l p] 1 active_phase_stored(2) [OF 1] p show ?thesis
      unfolding in_order_def by (intro exI [of _ ?st]) auto
  next
    case 2
    let ?w2 = "snd (KV_get (stateKey config) (snd (Date_now w)))"
    have l: "load_state ?w2 (stored w (stateKey config)) = (Inr st, ?w2)"
      using 2 by (simp add: load_state_stored)
    from run_loaded [OF l 2(2)] 2 active_phase_stored(1) [OF 2(1)] show ?thesis
      unfolding in_order_def by (intro exI [of _ st]) auto
  qed
qed

lemma reachable_ok: "reachable config w \<Longrightarrow> checkpoint_ok config w"
proof (induction rule: reachable.induct)
  case (start w)
  then show ?case by (simp add: checkpoint_ok_def)
next
  case (invoke w)
  then show ?case using run_ok by blast
next
  case (others w w')
  then show ?case by (simp add: checkpoint_ok_def)
qed

text \<open>
  C5. In every world reachable from an absent checkpoint, an invocation keeps the fixed order
  cleanup, subscribers, contacts, new cycle: the phase executed is the stored one, and the
  next active phase is that phase or its successor, never another.
\<close>

theorem phases_in_fixed_order:
  assumes "reachable config w"
  shows "\<exists>st r. in_order config w st r"
  using run_ok [OF reachable_ok [OF assms]] by blast

theorem phases_in_fixed_order_witness:
  "reachable cfg0 (snd (runIncrementalMaintenance cfg0 (world0 [] (\<lambda>n. 0))))
   \<and> active_phase cfg0 (snd (runIncrementalMaintenance cfg0 (world0 [] (\<lambda>n. 0)))) =
       Some ''backup-subscribers''
   \<and> (\<exists>st r. in_order cfg0 (snd (runIncrementalMaintenance cfg0 (world0 [] (\<lambda>n. 0)))) st r)"
proof -
  have "stored (world0 [] (\<lambda>n. 0)) (stateKey cfg0) = None"
    by (simp add: world0_def stored_def)
  then have "reachable cfg0 (world0 [] (\<lambda>n. 0))"
    by (rule reachable.start)
  then have r: "reachable cfg0 (snd (runIncrementalMaintenance cfg0 (world0 [] (\<lambda>n. 0))))"
    by (rule reachable.invoke)
  have a: "active_phase cfg0 (snd (runIncrementalMaintenance cfg0 (world0 [] (\<lambda>n. 0)))) =
       Some ''backup-subscribers''"
    by code_simp
  show ?thesis
    using phases_in_fixed_order [OF r] r a by simp
qed

subsection \<open>Budget exhaustion inside a page\<close>

text \<open>
  C4 at a concrete input. Two subscribers fit one page, which ends the listing. The first
  invocation appends Ann's row, runs out of budget before Bob's key, stores the buffer and
  returns the page's cursor, which is undefined for a page that ends the listing. The second
  invocation therefore lists from the start, appends Ann's row a second time, and the file
  committed to GitHub holds it twice.
\<close>

theorem mid_page_timeout_duplicates_row:
  "fst (runIncrementalMaintenance cfg0 (world0 kv_two_subscribers clock_late)) =
     Inr (Chunk ''backup-subscribers'' 1)
   \<and> stored (snd (runIncrementalMaintenance cfg0 (world0 kv_two_subscribers clock_late)))
        (csv_name (subscribers_archive cfg0)) =
       Some (Text (header (subscribers_archive cfg0) @ row_ann))
   \<and> stored (snd (runIncrementalMaintenance cfg0 (world0 kv_two_subscribers clock_late)))
        (stateKey cfg0) =
       Some (Json (stringify_state
         \<lparr>phase = ''backup-subscribers'', cursor = Undefined, processed = 1,
          startedAt = ''2024-01-01T00:00:00.000Z''\<rparr>))
   \<and> map content
        (github (snd (runIncrementalMaintenance cfg0
           (snd (runIncrementalMaintenance cfg0 (world0 kv_two_subscribers clock_late)))))) =
       [header (subscribers_archive cfg0) @ row_ann @ row_ann @ row_bob]"
  by code_simp

subsection \<open>Resumption: what the archive holds and what the sweep deletes\<close>












































end
